theory Spec2Isabelle
  imports Main "HOL-Library.AList"
begin

section \<open>vue-firestore: the change-application engine\<close>

text \<open>
  A shallow embedding of \<^verbatim>\<open>src/vue-firestore.js\<close>. The remote client (Firestore), the
  host framework (Vue) and the helpers of \<^verbatim>\<open>utils/utils\<close> are not part of the file:
  the remote client appears as the notifications it delivers, \<^verbatim>\<open>normalize\<close> and
  \<^verbatim>\<open>defaultOptions\<close> are parameters, and the JavaScript built-ins the code calls
  (\<^verbatim>\<open>Array.prototype.splice\<close>, \<^verbatim>\<open>Promise\<close>) are modelled after the language standard.
\<close>

subsection \<open>Data delivered by the remote client\<close>

text \<open>
  A document snapshot (\<^verbatim>\<open>doc.id\<close>, \<^verbatim>\<open>doc.data()\<close>, \<^verbatim>\<open>doc.exists\<close>) and a document change
  (\<^verbatim>\<open>snapshot.type\<close>, \<^verbatim>\<open>snapshot.oldIndex\<close>, \<^verbatim>\<open>snapshot.newIndex\<close>, \<^verbatim>\<open>snapshot.doc\<close>).
  The type of a change is the string the code switches on; the indices are JavaScript
  numbers holding integers (the remote client reports \<open>-1\<close> for an index that does
  not apply).
\<close>

record 'd doc_snapshot =
  doc_id :: string
  doc_data :: 'd
  doc_exists :: bool

record 'd doc_change =
  change_type :: string
  oldIndex :: int
  newIndex :: int
  doc :: "'d doc_snapshot"

subsection \<open>Array.prototype.splice\<close>

text \<open>
  \<^verbatim>\<open>xs.splice(start, deleteCount, ...items)\<close>, as the language standard defines it: a
  negative \<open>start\<close> counts from the end, \<open>start\<close> is clamped to \<open>[0, length]\<close> and
  \<open>deleteCount\<close> to \<open>[0, length - start]\<close>. The result is the array after the call
  (the code never reads the removed elements the call returns).
\<close>

definition splice_array :: "'a list \<Rightarrow> int \<Rightarrow> int \<Rightarrow> 'a list \<Rightarrow> 'a list" where
  "splice_array xs start deleteCount items =
     (let len = int (length xs);
          actualStart = (if start < 0 then max (len + start) 0 else min start len);
          actualDeleteCount = min (max deleteCount 0) (len - actualStart)
      in take (nat actualStart) xs @ items @ drop (nat (actualStart + actualDeleteCount)) xs)"

subsection \<open>The sequence strategy: the listener of \<^verbatim>\<open>collections\<close>\<close>

text \<open>
  The body of the \<^verbatim>\<open>forEach\<close> callback of \<^verbatim>\<open>collections\<close> (lines 38-57): one change
  applied to the container array. \<^verbatim>\<open>normalize\<close> (here \<open>normalize_fn\<close>) is called on
  the change itself, with the module's \<^verbatim>\<open>defaultOptions\<close>.
\<close>

definition collections_change ::
  "('d doc_change \<Rightarrow> 'o \<Rightarrow> 'v) \<Rightarrow> 'o \<Rightarrow> 'v list \<Rightarrow> 'd doc_change \<Rightarrow> 'v list" where
  "collections_change normalize_fn defaultOptions container snapshot =
     (if change_type snapshot = ''added'' then
        splice_array container (newIndex snapshot) 0 [normalize_fn snapshot defaultOptions]
      else if change_type snapshot = ''removed'' then
        splice_array container (oldIndex snapshot) 1 []
      else if change_type snapshot = ''modified'' then
        (if oldIndex snapshot \<noteq> newIndex snapshot then
           splice_array (splice_array container (oldIndex snapshot) 1 [])
             (newIndex snapshot) 0 [normalize_fn snapshot defaultOptions]
         else
           splice_array container (newIndex snapshot) 1 [normalize_fn snapshot defaultOptions])
      else container)"

text \<open>
  \<^verbatim>\<open>doc.docChanges().forEach(...)\<close> (lines 37-61): the changes of one notification, applied
  in the order the array holds them. (The second argument of \<^verbatim>\<open>forEach\<close> is its
  \<^verbatim>\<open>this\<close> value, so the arrow function passed there is never called.)
\<close>

definition collections_forEach ::
  "('d doc_change \<Rightarrow> 'o \<Rightarrow> 'v) \<Rightarrow> 'o \<Rightarrow> 'v list \<Rightarrow> 'd doc_change list \<Rightarrow> 'v list" where
  "collections_forEach normalize_fn defaultOptions container docChanges =
     foldl (collections_change normalize_fn defaultOptions) container docChanges"

subsection \<open>The keyed strategy: the listener of \<^verbatim>\<open>collectionOfObjects\<close>\<close>

text \<open>
  The body of the \<^verbatim>\<open>forEach\<close> callback of \<^verbatim>\<open>collectionOfObjects\<close> (lines 86-100), on
  the plain object \<^verbatim>\<open>vm[key]\<close> refers to: \<^verbatim>\<open>Vue.set\<close> stores a property, \<^verbatim>\<open>Vue.delete\<close>
  removes it.
\<close>

definition collectionOfObjects_change ::
  "(string \<rightharpoonup> 'd) \<Rightarrow> 'd doc_change \<Rightarrow> (string \<rightharpoonup> 'd)" where
  "collectionOfObjects_change target snapshot =
     (if change_type snapshot = ''added'' then
        target(doc_id (doc snapshot) \<mapsto> doc_data (doc snapshot))
      else if change_type snapshot = ''removed'' then
        target(doc_id (doc snapshot) := None)
      else if change_type snapshot = ''modified'' then
        target(doc_id (doc snapshot) \<mapsto> doc_data (doc snapshot))
      else target)"

definition collectionOfObjects_forEach ::
  "(string \<rightharpoonup> 'd) \<Rightarrow> 'd doc_change list \<Rightarrow> (string \<rightharpoonup> 'd)" where
  "collectionOfObjects_forEach target docChanges =
     foldl collectionOfObjects_change target docChanges"

subsection \<open>JavaScript values, errors and promises\<close>

text \<open>
  What the code throws or rejects with: the \<^verbatim>\<open>TypeError\<close> of the language (a property
  of \<^verbatim>\<open>null\<close> or \<^verbatim>\<open>undefined\<close> is accessed, a value that is not a function is called),
  or any other value (an error of the remote client, what a callback throws).
\<close>

datatype 'e thrown = TypeError | Error 'e

text \<open>
  The values a bound property or a promise holds: \<^verbatim>\<open>undefined\<close>, a reference to a
  container object on the heap, or a normalized document. Two references are the
  same object exactly when their addresses are equal.
\<close>

datatype 'v jsval = Undefined | Ref nat | Doc 'v

datatype ('v, 'd) jsobj = ArrayObj "'v list" | PlainObj "string \<rightharpoonup> 'd"

text \<open>
  A promise as the language defines it: it settles once, and calling its \<^verbatim>\<open>resolve\<close>
  or \<^verbatim>\<open>reject\<close> function afterwards changes nothing. The two counters record how
  often each function was called; the code cannot read them.
\<close>

datatype ('a, 'x) pstate = Pending | Fulfilled 'a | Rejected 'x

record ('v, 'e) promise =
  state :: "('v jsval, 'e thrown) pstate"
  resolve_calls :: nat
  reject_calls :: nat

definition new_promise :: "('v, 'e) promise" where
  "new_promise = \<lparr>state = Pending, resolve_calls = 0, reject_calls = 0\<rparr>"

definition settle :: "('a, 'x) pstate \<Rightarrow> ('a, 'x) pstate \<Rightarrow> ('a, 'x) pstate" where
  "settle s s' = (case s of Pending \<Rightarrow> s' | Fulfilled a \<Rightarrow> s | Rejected x \<Rightarrow> s)"

definition promise_resolve :: "('v, 'e) promise \<Rightarrow> 'v jsval \<Rightarrow> ('v, 'e) promise" where
  "promise_resolve p v =
     p\<lparr>state := settle (state p) (Fulfilled v), resolve_calls := Suc (resolve_calls p)\<rparr>"

definition promise_reject :: "('v, 'e) promise \<Rightarrow> 'e thrown \<Rightarrow> ('v, 'e) promise" where
  "promise_reject p x =
     p\<lparr>state := settle (state p) (Rejected x), reject_calls := Suc (reject_calls p)\<rparr>"

text \<open>
  What a callback supplied by the caller does when it is called: it returns a value
  that is not a promise, it throws, or it returns a promise (as every \<^verbatim>\<open>async\<close>
  function does), given here by the state that promise comes to.
\<close>

datatype ('a, 'x) outcome = Return 'a | Throw 'x | ReturnPromise "('a, 'x) pstate"

text \<open>
  The state of the promise that \<^verbatim>\<open>then\<close> or \<^verbatim>\<open>catch\<close> returned, once its handler has
  run: fulfilled with the value returned, rejected with the value thrown, or, when
  the handler returned a promise, the state of that promise (the derived promise
  follows it).
\<close>

definition handled :: "('a, 'x) outcome \<Rightarrow> ('a, 'x) pstate" where
  "handled out =
     (case out of Return r \<Rightarrow> Fulfilled r | Throw x \<Rightarrow> Rejected x | ReturnPromise s \<Rightarrow> s)"

text \<open>
  \<^verbatim>\<open>binding.then(res => resolve(res)).catch(err => reject(err))\<close> (line 176): the state of
  the promise this expression returns, from the state of \<^verbatim>\<open>binding\<close>, once the
  reactions have run. A rejection of the intermediate promise (\<^verbatim>\<open>binding\<close> was
  rejected, or the first callback threw or returned a promise that was rejected) is
  what the second callback handles.
\<close>

definition then_catch ::
  "('a, 'x) pstate \<Rightarrow> ('a \<Rightarrow> ('b, 'x) outcome) \<Rightarrow> ('x \<Rightarrow> ('b, 'x) outcome) \<Rightarrow> ('b, 'x) pstate" where
  "then_catch binding resolve reject =
     (let after_then =
            (case binding of
               Pending \<Rightarrow> Pending
             | Fulfilled res \<Rightarrow> handled (resolve res)
             | Rejected err \<Rightarrow> Rejected err)
      in case after_then of
           Pending \<Rightarrow> Pending
         | Fulfilled r \<Rightarrow> Fulfilled r
         | Rejected err \<Rightarrow> handled (reject err))"

subsection \<open>Sources\<close>

text \<open>
  A query or a document reference of the remote client; \<open>has_where\<close> says that
  \<^verbatim>\<open>source.where\<close> is truthy (queries and collection references have the method,
  document references do not). A descriptor is an object with an own property
  \<^verbatim>\<open>ref\<close> (the test of line 156); its \<^verbatim>\<open>resolve\<close> and \<^verbatim>\<open>reject\<close> are present
  when truthy, and \<open>objects_flag\<close> says that \<^verbatim>\<open>source.objects\<close> is truthy.
\<close>

record raw_source =
  path :: string
  has_where :: bool

record ('v, 'e) ref_descriptor =
  ref :: raw_source
  resolve_cb :: "('v jsval \<Rightarrow> ('v jsval, 'e thrown) outcome) option"
  reject_cb :: "('e thrown \<Rightarrow> ('v jsval, 'e thrown) outcome) option"
  objects_flag :: bool

datatype ('v, 'e) source = Plain raw_source | Descriptor "('v, 'e) ref_descriptor"

text \<open>\<^verbatim>\<open>params\<close> of \<^verbatim>\<open>bind\<close>: \<open>objects_param\<close> says that \<^verbatim>\<open>params.objects\<close> is truthy.\<close>

record bind_params =
  objects_param :: bool

subsection \<open>The owner, the heap and the remote client's listeners\<close>

text \<open>
  The three functions \<^verbatim>\<open>bind\<close> chooses from, and a listener registered with the remote
  client by \<^verbatim>\<open>source.onSnapshot\<close>: the closure's \<^verbatim>\<open>key\<close>, the address of the
  container it created, and the promise whose \<^verbatim>\<open>resolve\<close> and \<^verbatim>\<open>reject\<close> it holds.
\<close>

datatype strategy = CollectionOfObjects | Collections | Documents

record listener =
  l_strategy :: strategy
  l_key :: string
  l_container :: nat
  l_promise :: nat

text \<open>
  One owner (\<^verbatim>\<open>vm\<close>) and what surrounds it. \<open>firestore\<close> is \<^verbatim>\<open>vm.$firestore\<close>
  (\<open>None\<close> when it is \<^verbatim>\<open>null\<close> or \<^verbatim>\<open>undefined\<close>), an object whose entries are kept
  here in the order of their creation (\<open>own_keys\<close> below gives the order in which the
  language enumerates them); \<open>props\<close> are the owner's other properties (\<^verbatim>\<open>vm[key]\<close>);
  \<open>heap\<close> holds the container objects, \<open>promises\<close> the promises \<^verbatim>\<open>bind\<close> created.
  \<open>listeners\<close> are the subscriptions open at the remote client: \<^verbatim>\<open>onSnapshot\<close> adds
  one and returns the function that would remove it. The code drops that
  function (lines 35, 83, 126), so nothing below removes a listener.
\<close>

record ('v, 'd, 'e) world =
  firestore :: "(string \<times> raw_source) list option"
  props :: "string \<rightharpoonup> 'v jsval"
  heap :: "('v, 'd) jsobj list"
  promises :: "('v, 'e) promise list"
  listeners :: "listener list"

definition heap_array :: "('v, 'd, 'e) world \<Rightarrow> nat \<Rightarrow> 'v list option" where
  "heap_array w a =
     (if a < length (heap w) then
        (case heap w ! a of ArrayObj xs \<Rightarrow> Some xs | PlainObj m \<Rightarrow> None)
      else None)"

definition heap_object :: "('v, 'd, 'e) world \<Rightarrow> nat \<Rightarrow> (string \<rightharpoonup> 'd) option" where
  "heap_object w a =
     (if a < length (heap w) then
        (case heap w ! a of ArrayObj xs \<Rightarrow> None | PlainObj m \<Rightarrow> Some m)
      else None)"

definition promise_state :: "('v, 'd, 'e) world \<Rightarrow> nat \<Rightarrow> ('v jsval, 'e thrown) pstate option" where
  "promise_state w p = (if p < length (promises w) then Some (state (promises w ! p)) else None)"

definition resolve_promise :: "('v, 'd, 'e) world \<Rightarrow> nat \<Rightarrow> 'v jsval \<Rightarrow> ('v, 'd, 'e) world" where
  "resolve_promise w p v =
     (if p < length (promises w) then
        w\<lparr>promises := (promises w)[p := promise_resolve (promises w ! p) v]\<rparr>
      else w)"

definition reject_promise :: "('v, 'd, 'e) world \<Rightarrow> nat \<Rightarrow> 'e thrown \<Rightarrow> ('v, 'd, 'e) world" where
  "reject_promise w p x =
     (if p < length (promises w) then
        w\<lparr>promises := (promises w)[p := promise_reject (promises w ! p) x]\<rparr>
      else w)"

text \<open>
  \<^verbatim>\<open>defineReactive\<close> (lines 14-20): an assignment when the owner has the property, a
  reactive definition with that value otherwise; \<^verbatim>\<open>vm[key]\<close> is \<open>val\<close> afterwards.
\<close>

definition defineReactive :: "('v, 'd, 'e) world \<Rightarrow> string \<Rightarrow> 'v jsval \<Rightarrow> ('v, 'd, 'e) world" where
  "defineReactive w key val =
     (if key \<in> dom (props w) then w\<lparr>props := (props w)(key \<mapsto> val)\<rparr>
      else w\<lparr>props := (props w)(key \<mapsto> val)\<rparr>)"

subsection \<open>Opening a binding: \<^verbatim>\<open>collections\<close>, \<^verbatim>\<open>collectionOfObjects\<close>, \<^verbatim>\<open>documents\<close>\<close>

text \<open>
  The part of each function that runs when it is called (lines 32-35, 80-83, 123-126):
  the source is stored in the side table (a \<^verbatim>\<open>TypeError\<close> when \<^verbatim>\<open>vm.$firestore\<close> is
  \<^verbatim>\<open>null\<close> or \<^verbatim>\<open>undefined\<close>), a new container is made the owner's property, and
  the listener is registered. \<open>p\<close> is the promise whose functions are passed in.
\<close>

definition open_binding ::
  "strategy \<Rightarrow> ('v, 'd) jsobj \<Rightarrow> ('v, 'd, 'e) world \<Rightarrow> string \<Rightarrow> raw_source \<Rightarrow> nat \<Rightarrow>
     'e thrown + ('v, 'd, 'e) world" where
  "open_binding strat container w key source p =
     (case firestore w of
        None \<Rightarrow> Inl TypeError
      | Some table \<Rightarrow>
          (let a = length (heap w);
               w1 = w\<lparr>firestore := Some (AList.update key source table),
                       heap := heap w @ [container]\<rparr>;
               w2 = defineReactive w1 key (Ref a)
           in Inr (w2\<lparr>listeners := listeners w2 @
                 [\<lparr>l_strategy = strat, l_key = key, l_container = a, l_promise = p\<rparr>]\<rparr>)))"

definition collections ::
  "('v, 'd, 'e) world \<Rightarrow> string \<Rightarrow> raw_source \<Rightarrow> nat \<Rightarrow> 'e thrown + ('v, 'd, 'e) world" where
  "collections w key source p = open_binding Collections (ArrayObj []) w key source p"

definition collectionOfObjects ::
  "('v, 'd, 'e) world \<Rightarrow> string \<Rightarrow> raw_source \<Rightarrow> nat \<Rightarrow> 'e thrown + ('v, 'd, 'e) world" where
  "collectionOfObjects w key source p =
     open_binding CollectionOfObjects (PlainObj Map.empty) w key source p"

definition documents ::
  "('v, 'd, 'e) world \<Rightarrow> string \<Rightarrow> raw_source \<Rightarrow> nat \<Rightarrow> 'e thrown + ('v, 'd, 'e) world" where
  "documents w key source p = open_binding Documents (ArrayObj []) w key source p"

subsection \<open>The listeners\<close>

text \<open>
  The first callback of \<^verbatim>\<open>collections\<close> (lines 36-63): the changes are applied to the
  container array, then \<^verbatim>\<open>resolve(container)\<close> is called with the array itself. The
  second callback (lines 64-66) calls \<^verbatim>\<open>reject(error)\<close>. A listener registered by
  \<^verbatim>\<open>collections\<close> has an array at \<open>l_container\<close>; for any other address nothing is done.
\<close>

definition collections_next ::
  "('d doc_change \<Rightarrow> 'o \<Rightarrow> 'v) \<Rightarrow> 'o \<Rightarrow> ('v, 'd, 'e) world \<Rightarrow> listener \<Rightarrow> 'd doc_change list \<Rightarrow>
     ('v, 'd, 'e) world" where
  "collections_next normalize_fn defaultOptions w l docChanges =
     (case heap_array w (l_container l) of
        None \<Rightarrow> w
      | Some container \<Rightarrow>
          resolve_promise
            (w\<lparr>heap := (heap w)[l_container l :=
                 ArrayObj (collections_forEach normalize_fn defaultOptions container docChanges)]\<rparr>)
            (l_promise l) (Ref (l_container l)))"

definition collections_error ::
  "('v, 'd, 'e) world \<Rightarrow> listener \<Rightarrow> 'e \<Rightarrow> ('v, 'd, 'e) world" where
  "collections_error w l error = reject_promise w (l_promise l) (Error error)"

text \<open>
  The callbacks of \<^verbatim>\<open>collectionOfObjects\<close> (lines 84-109). The changes go to the
  object \<^verbatim>\<open>vm[key]\<close> refers to at that moment, and \<^verbatim>\<open>resolve(container)\<close> is called with
  the object the function created. The result is \<open>None\<close> when \<^verbatim>\<open>vm[key]\<close> is not a
  reference to a plain object: what \<^verbatim>\<open>Vue.set\<close> and \<^verbatim>\<open>Vue.delete\<close> do then is the
  host's business and is not modelled.
\<close>

definition collectionOfObjects_next ::
  "('v, 'd, 'e) world \<Rightarrow> listener \<Rightarrow> 'd doc_change list \<Rightarrow> ('v, 'd, 'e) world option" where
  "collectionOfObjects_next w l docChanges =
     (case props w (l_key l) of
        Some (Ref a) \<Rightarrow>
          (case heap_object w a of
             None \<Rightarrow> None
           | Some target \<Rightarrow>
               Some (resolve_promise
                 (w\<lparr>heap := (heap w)[a :=
                      PlainObj (collectionOfObjects_forEach target docChanges)]\<rparr>)
                 (l_promise l) (Ref (l_container l))))
      | _ \<Rightarrow> None)"

definition collectionOfObjects_error ::
  "('v, 'd, 'e) world \<Rightarrow> listener \<Rightarrow> 'e \<Rightarrow> ('v, 'd, 'e) world" where
  "collectionOfObjects_error w l error = reject_promise w (l_promise l) (Error error)"

text \<open>
  The callbacks of \<^verbatim>\<open>documents\<close> (lines 127-139). The result is the state the callback
  leaves and the exception that escapes it, if any. \<open>console_warning\<close> is the method
  \<^verbatim>\<open>console.warning\<close> of the host, \<open>None\<close> when the console has no such method (the
  standard console has \<^verbatim>\<open>warn\<close>, not \<^verbatim>\<open>warning\<close>): calling it is then a
  \<^verbatim>\<open>TypeError\<close>, raised while the argument of \<^verbatim>\<open>reject\<close> is evaluated, so that neither
  \<^verbatim>\<open>reject\<close> nor the \<^verbatim>\<open>resolve\<close> of line 135 is reached.
\<close>

definition vm_get :: "('v, 'd, 'e) world \<Rightarrow> string \<Rightarrow> 'v jsval" where
  "vm_get w key = (case props w key of None \<Rightarrow> Undefined | Some v \<Rightarrow> v)"

definition missing_message :: "string \<Rightarrow> string" where
  "missing_message key =
     ''The document ('' @ key @ '') doesn'' @ [CHR 0x27] @ ''t exist or permission was denied''"

definition documents_next ::
  "('d doc_snapshot \<Rightarrow> 'o \<Rightarrow> 'v) \<Rightarrow> 'o \<Rightarrow> (string \<Rightarrow> 'e) option \<Rightarrow>
     ('v, 'd, 'e) world \<Rightarrow> listener \<Rightarrow> 'd doc_snapshot \<Rightarrow> ('v, 'd, 'e) world \<times> 'e thrown option" where
  "documents_next normalize_fn defaultOptions console_warning w l document =
     (if doc_exists document then
        (let w1 = w\<lparr>props := (props w)(l_key l \<mapsto> Doc (normalize_fn document defaultOptions))\<rparr>
         in (resolve_promise w1 (l_promise l) (vm_get w1 (l_key l)), None))
      else
        (case firestore w of
           None \<Rightarrow> (w, Some TypeError)
         | Some table \<Rightarrow>
             (let w1 = w\<lparr>firestore := Some (AList.delete (l_key l) table)\<rparr>
              in case console_warning of
                   None \<Rightarrow> (w1, Some TypeError)
                 | Some warning \<Rightarrow>
                     (let w2 = reject_promise w1 (l_promise l)
                                 (Error (warning (missing_message (l_key l))))
                      in (resolve_promise w2 (l_promise l) (vm_get w2 (l_key l)), None)))))"

definition documents_error ::
  "('v, 'd, 'e) world \<Rightarrow> listener \<Rightarrow> 'e \<Rightarrow> ('v, 'd, 'e) world" where
  "documents_error w l error = reject_promise w (l_promise l) (Error error)"

subsection \<open>\<^verbatim>\<open>bind\<close>\<close>

text \<open>
  Lines 154 and 161: the flag \<^verbatim>\<open>objects\<close> the choice is made on. For a descriptor the
  assignment of line 161 replaces what line 154 took from \<^verbatim>\<open>params\<close>. Line 162: the
  source after unwrapping.
\<close>

definition bind_objects :: "bind_params \<Rightarrow> ('v, 'e) source \<Rightarrow> bool" where
  "bind_objects params source =
     (let objects = objects_param params
      in case source of Plain s \<Rightarrow> objects | Descriptor d \<Rightarrow> objects_flag d)"

definition bind_source :: "('v, 'e) source \<Rightarrow> raw_source" where
  "bind_source source = (case source of Plain s \<Rightarrow> s | Descriptor d \<Rightarrow> ref d)"

text \<open>Lines 152-153 and 159-160: the outer \<^verbatim>\<open>resolve\<close> and \<^verbatim>\<open>reject\<close>, \<open>None\<close> for \<^verbatim>\<open>null\<close>.\<close>

definition bind_resolve ::
  "('v, 'e) source \<Rightarrow> ('v jsval \<Rightarrow> ('v jsval, 'e thrown) outcome) option" where
  "bind_resolve source =
     (case source of
        Plain s \<Rightarrow> None
      | Descriptor d \<Rightarrow>
          Some (case resolve_cb d of Some f \<Rightarrow> f | None \<Rightarrow> (\<lambda>res. Return Undefined)))"

definition bind_reject ::
  "('v, 'e) source \<Rightarrow> ('e thrown \<Rightarrow> ('v jsval, 'e thrown) outcome) option" where
  "bind_reject source =
     (case source of
        Plain s \<Rightarrow> None
      | Descriptor d \<Rightarrow>
          Some (case reject_cb d of Some f \<Rightarrow> f | None \<Rightarrow> (\<lambda>err. Return Undefined)))"

text \<open>Calling a variable that may hold \<^verbatim>\<open>null\<close>.\<close>

definition call :: "('a \<Rightarrow> ('b, 'e thrown) outcome) option \<Rightarrow> 'a \<Rightarrow> ('b, 'e thrown) outcome" where
  "call f x = (case f of None \<Rightarrow> Throw TypeError | Some g \<Rightarrow> g x)"

text \<open>The choice of lines 166-172.\<close>

definition bind_strategy :: "bool \<Rightarrow> raw_source \<Rightarrow> strategy" where
  "bind_strategy objects source =
     (if objects then CollectionOfObjects
      else if has_where source then Collections
      else Documents)"

text \<open>
  The executor of the promise (lines 165-173), run by \<^verbatim>\<open>new Promise\<close>: an exception it
  throws rejects the promise.
\<close>

definition bind_executor ::
  "('v, 'd, 'e) world \<Rightarrow> string \<Rightarrow> raw_source \<Rightarrow> bool \<Rightarrow> nat \<Rightarrow> ('v, 'd, 'e) world" where
  "bind_executor w key source objects p =
     (case (case bind_strategy objects source of
              CollectionOfObjects \<Rightarrow> collectionOfObjects w key source p
            | Collections \<Rightarrow> collections w key source p
            | Documents \<Rightarrow> documents w key source p) of
        Inl x \<Rightarrow>
          (if p < length (promises w) then
             w\<lparr>promises := (promises w)[p :=
                  (promises w ! p)\<lparr>state := settle (state (promises w ! p)) (Rejected x)\<rparr>]\<rparr>
           else w)
      | Inr w' \<Rightarrow> w')"

text \<open>
  What \<^verbatim>\<open>bind\<close> returns: the promise \<^verbatim>\<open>binding\<close> itself, or the promise of line 176
  with the two callbacks chained on it.
\<close>

datatype ('v, 'e) returned =
    Direct nat
  | Chained nat "'v jsval \<Rightarrow> ('v jsval, 'e thrown) outcome" "'e thrown \<Rightarrow> ('v jsval, 'e thrown) outcome"

definition returned_state ::
  "('v, 'd, 'e) world \<Rightarrow> ('v, 'e) returned \<Rightarrow> ('v jsval, 'e thrown) pstate option" where
  "returned_state w r =
     (case r of
        Direct p \<Rightarrow> promise_state w p
      | Chained p resolve reject \<Rightarrow>
          (case promise_state w p of
             None \<Rightarrow> None
           | Some s \<Rightarrow> Some (then_catch s resolve reject)))"

definition bind ::
  "('v, 'd, 'e) world \<Rightarrow> string \<Rightarrow> ('v, 'e) source \<Rightarrow> bind_params \<Rightarrow>
     ('v, 'd, 'e) world \<times> ('v, 'e) returned" where
  "bind w key source params =
     (let resolve = bind_resolve source;
          reject = bind_reject source;
          objects = bind_objects params source;
          source' = bind_source source;
          p = length (promises w);
          w' = bind_executor (w\<lparr>promises := promises w @ [new_promise]\<rparr>) key source' objects p
      in if resolve \<noteq> None \<or> reject \<noteq> None
         then (w', Chained p (call resolve) (call reject))
         else (w', Direct p))"

subsection \<open>The owner's methods and teardown\<close>

text \<open>\<^verbatim>\<open>$binding\<close> and \<^verbatim>\<open>$bindCollectionAsObject\<close> (lines 231-246).\<close>

definition ensure_firestore :: "('v, 'd, 'e) world \<Rightarrow> ('v, 'd, 'e) world" where
  "ensure_firestore w = (if firestore w = None then w\<lparr>firestore := Some []\<rparr> else w)"

definition binding ::
  "('v, 'd, 'e) world \<Rightarrow> string \<Rightarrow> ('v, 'e) source \<Rightarrow> ('v, 'd, 'e) world \<times> ('v, 'e) returned" where
  "binding w key source = bind (ensure_firestore w) key source \<lparr>objects_param = False\<rparr>"

definition bindCollectionAsObject ::
  "('v, 'd, 'e) world \<Rightarrow> string \<Rightarrow> ('v, 'e) source \<Rightarrow> ('v, 'd, 'e) world \<times> ('v, 'e) returned" where
  "bindCollectionAsObject w key source =
     bind (ensure_firestore w) key source \<lparr>objects_param = True\<rparr>"

text \<open>
  \<^verbatim>\<open>$unbind\<close> (lines 248-250): \<^verbatim>\<open>delete this.$firestore[key]\<close>, a \<^verbatim>\<open>TypeError\<close> when
  \<^verbatim>\<open>this.$firestore\<close> is \<^verbatim>\<open>null\<close> or \<^verbatim>\<open>undefined\<close>. Nothing else is touched.
\<close>

definition unbind :: "('v, 'd, 'e) world \<Rightarrow> string \<Rightarrow> 'e thrown + ('v, 'd, 'e) world" where
  "unbind w key =
     (case firestore w of
        None \<Rightarrow> Inl TypeError
      | Some table \<Rightarrow> Inr (w\<lparr>firestore := Some (AList.delete key table)\<rparr>))"

text \<open>
  The order in which \<^verbatim>\<open>for (const key in object)\<close> visits the own keys of an object
  without prototype, as the language standard has it: the keys that are array
  indices (canonical decimal numerals below \<^verbatim>\<open>2^32 - 1\<close>) in ascending numeric order,
  then the other keys in the order of their creation.
\<close>

definition index_value :: "string \<Rightarrow> int" where
  "index_value key = foldl (\<lambda>n c. 10 * n + (of_char c - 48)) 0 key"

definition is_array_index :: "string \<Rightarrow> bool" where
  "is_array_index key =
     (key \<noteq> [] \<and> list_all (\<lambda>c. c \<in> set ''0123456789'') key \<and>
      (key = ''0'' \<or> hd key \<noteq> CHR ''0'') \<and> index_value key < 2 ^ 32 - 1)"

definition own_keys :: "(string \<times> 'a) list \<Rightarrow> string list" where
  "own_keys table =
     sort_key index_value (filter is_array_index (map fst table)) @
     filter (\<lambda>key. \<not> is_array_index key) (map fst table)"

text \<open>
  \<^verbatim>\<open>beforeDestroy\<close> (lines 198-206): the loop over the keys of the side table, which
  unbinds each key whose entry is present (an entry is a source object, hence
  truthy), then \<^verbatim>\<open>this.$firestore = null\<close>.
\<close>

fun unbind_keys ::
  "('v, 'd, 'e) world \<Rightarrow> string list \<Rightarrow> 'e thrown + ('v, 'd, 'e) world" where
  "unbind_keys w [] = Inr w"
| "unbind_keys w (key # keys) =
     (case firestore w of
        None \<Rightarrow> Inl TypeError
      | Some table \<Rightarrow>
          (if map_of table key \<noteq> None then
             (case unbind w key of Inl x \<Rightarrow> Inl x | Inr w' \<Rightarrow> unbind_keys w' keys)
           else unbind_keys w keys))"

definition beforeDestroy :: "('v, 'd, 'e) world \<Rightarrow> 'e thrown + ('v, 'd, 'e) world" where
  "beforeDestroy w =
     (case firestore w of
        None \<Rightarrow> Inr w
      | Some table \<Rightarrow>
          (case unbind_keys w (own_keys table) of
             Inl x \<Rightarrow> Inl x
           | Inr w' \<Rightarrow> Inr (w'\<lparr>firestore := None\<rparr>)))"

subsection \<open>An owner with no binding, and the notifications of one subscription\<close>

text \<open>An owner before anything is bound: no side table, no property, no listener.\<close>

definition new_vm :: "('v, 'd, 'e) world" where
  "new_vm = \<lparr>firestore = None, props = Map.empty, heap = [], promises = [], listeners = []\<rparr>"

text \<open>
  The remote client calls the two callbacks of a listener one notification at a time,
  in the order of delivery: a batch of changes goes to the first callback, an error to
  the second.
\<close>

datatype ('d, 'e) notification = Next "'d doc_change list" | Failure 'e

fun notification_changes :: "('d, 'e) notification \<Rightarrow> 'd doc_change list" where
  "notification_changes (Next docChanges) = docChanges"
| "notification_changes (Failure error) = []"

fun is_batch :: "('d, 'e) notification \<Rightarrow> bool" where
  "is_batch (Next docChanges) = True"
| "is_batch (Failure error) = False"

definition collections_notify ::
  "('d doc_change \<Rightarrow> 'o \<Rightarrow> 'v) \<Rightarrow> 'o \<Rightarrow> ('v, 'd, 'e) world \<Rightarrow> listener \<Rightarrow> ('d, 'e) notification \<Rightarrow>
     ('v, 'd, 'e) world" where
  "collections_notify normalize_fn defaultOptions w l note =
     (case note of
        Next docChanges \<Rightarrow> collections_next normalize_fn defaultOptions w l docChanges
      | Failure error \<Rightarrow> collections_error w l error)"

definition collections_run ::
  "('d doc_change \<Rightarrow> 'o \<Rightarrow> 'v) \<Rightarrow> 'o \<Rightarrow> ('v, 'd, 'e) world \<Rightarrow> listener \<Rightarrow>
     ('d, 'e) notification list \<Rightarrow> ('v, 'd, 'e) world" where
  "collections_run normalize_fn defaultOptions w l notes =
     foldl (\<lambda>w' note. collections_notify normalize_fn defaultOptions w' l note) w notes"

text \<open>The same for a listener of \<^verbatim>\<open>collectionOfObjects\<close>, whose first callback may be \<open>None\<close>.\<close>

definition collectionOfObjects_notify ::
  "('v, 'd, 'e) world \<Rightarrow> listener \<Rightarrow> ('d, 'e) notification \<Rightarrow> ('v, 'd, 'e) world option" where
  "collectionOfObjects_notify w l note =
     (case note of
        Next docChanges \<Rightarrow> collectionOfObjects_next w l docChanges
      | Failure error \<Rightarrow> Some (collectionOfObjects_error w l error))"

fun collectionOfObjects_run ::
  "('v, 'd, 'e) world \<Rightarrow> listener \<Rightarrow> ('d, 'e) notification list \<Rightarrow> ('v, 'd, 'e) world option" where
  "collectionOfObjects_run w l [] = Some w"
| "collectionOfObjects_run w l (note # notes) =
     (case collectionOfObjects_notify w l note of
        None \<Rightarrow> None
      | Some w' \<Rightarrow> collectionOfObjects_run w' l notes)"

section \<open>Properties\<close>

subsection \<open>Splicing at an index inside the array\<close>

lemma splice_insert:
  "0 \<le> i \<Longrightarrow> i \<le> int (length xs) \<Longrightarrow>
   splice_array xs i 0 [v] = take (nat i) xs @ v # drop (nat i) xs"
  by (simp add: splice_array_def Let_def min_def max_def)

lemma splice_delete:
  "0 \<le> i \<Longrightarrow> i < int (length xs) \<Longrightarrow>
   splice_array xs i 1 [] = take (nat i) xs @ drop (Suc (nat i)) xs"
  by (simp add: splice_array_def Let_def min_def max_def nat_add_distrib)

lemma splice_replace:
  "0 \<le> i \<Longrightarrow> i < int (length xs) \<Longrightarrow> splice_array xs i 1 [v] = xs[nat i := v]"
  by (simp add: splice_array_def Let_def min_def max_def nat_add_distrib upd_conv_take_nth_drop)

subsection \<open>Splicing at an index outside the array\<close>

text \<open>
  Outside the array the call clamps the index, as the language standard says. These
  are the indices the remote client never reports; the code does not check for them.
\<close>

lemma splice_insert_beyond:
  "int (length xs) \<le> i \<Longrightarrow> splice_array xs i 0 [v] = xs @ [v]"
  by (simp add: splice_array_def Let_def min_def max_def)

lemma splice_delete_beyond:
  "int (length xs) \<le> i \<Longrightarrow> splice_array xs i 1 [] = xs"
  by (simp add: splice_array_def Let_def min_def max_def)

lemma splice_negative:
  "i < 0 \<Longrightarrow>
   splice_array xs i n items = splice_array xs (max (int (length xs) + i) 0) n items"
  by (simp add: splice_array_def Let_def min_def max_def)

lemma splice_delete_minus_one: "splice_array [a, b, c] (- 1) 1 [] = [a, b]"
  by (simp add: splice_array_def Let_def)

subsection \<open>One change applied to the container array\<close>

lemma collections_change_added:
  "change_type ev = ''added'' \<Longrightarrow>
   collections_change n opts c ev = splice_array c (newIndex ev) 0 [n ev opts]"
  by (simp add: collections_change_def)

lemma collections_change_removed:
  "change_type ev = ''removed'' \<Longrightarrow>
   collections_change n opts c ev = splice_array c (oldIndex ev) 1 []"
  by (simp add: collections_change_def)

lemma collections_change_modified:
  "change_type ev = ''modified'' \<Longrightarrow>
   collections_change n opts c ev =
     (if oldIndex ev \<noteq> newIndex ev
      then splice_array (splice_array c (oldIndex ev) 1 []) (newIndex ev) 0 [n ev opts]
      else splice_array c (newIndex ev) 1 [n ev opts])"
  by (simp add: collections_change_def)

lemma nth_splice_insert:
  assumes "0 \<le> i" "i \<le> int (length xs)"
  shows "length (splice_array xs i 0 [v]) = Suc (length xs)"
    and "splice_array xs i 0 [v] ! nat i = v"
    and "\<forall>j<nat i. splice_array xs i 0 [v] ! j = xs ! j"
    and "\<forall>j. nat i \<le> j \<and> j < length xs \<longrightarrow> splice_array xs i 0 [v] ! Suc j = xs ! j"
  using assms by (auto simp: splice_insert nth_append min_def Suc_diff_le)

lemma nth_splice_delete:
  assumes "0 \<le> i" "i < int (length xs)"
  shows "Suc (length (splice_array xs i 1 [])) = length xs"
    and "\<forall>j<nat i. splice_array xs i 1 [] ! j = xs ! j"
    and "\<forall>j. nat i \<le> j \<and> Suc j < length xs \<longrightarrow> splice_array xs i 1 [] ! j = xs ! Suc j"
  using assms by (auto simp: splice_delete nth_append min_def)

lemma ex_insert:
  "collections_forEach normalize_fn opts []
     [\<lparr>change_type = ''added'', oldIndex = oa, newIndex = 0, doc = da\<rparr>,
      \<lparr>change_type = ''added'', oldIndex = ob, newIndex = 1, doc = db\<rparr>,
      \<lparr>change_type = ''added'', oldIndex = oc, newIndex = 2, doc = dc\<rparr>] =
   [normalize_fn \<lparr>change_type = ''added'', oldIndex = oa, newIndex = 0, doc = da\<rparr> opts,
    normalize_fn \<lparr>change_type = ''added'', oldIndex = ob, newIndex = 1, doc = db\<rparr> opts,
    normalize_fn \<lparr>change_type = ''added'', oldIndex = oc, newIndex = 2, doc = dc\<rparr> opts]"
  by (simp add: collections_forEach_def collections_change_added splice_insert)

lemma ex_remove:
  "collections_change normalize_fn opts [A, B, C]
      \<lparr>change_type = ''removed'', oldIndex = 1, newIndex = nr, doc = dr\<rparr> = [A, C]"
  by (simp add: collections_change_removed splice_delete)


lemma collections_change_added_valid:
  assumes "change_type ev = ''added''" "0 \<le> newIndex ev" "newIndex ev \<le> int (length container)"
  shows "collections_change normalize_fn opts container ev =
           take (nat (newIndex ev)) container @ normalize_fn ev opts # drop (nat (newIndex ev)) container"
    and "length (collections_change normalize_fn opts container ev) = Suc (length container)"
    and "collections_change normalize_fn opts container ev ! nat (newIndex ev) = normalize_fn ev opts"
    and "\<forall>j<nat (newIndex ev). collections_change normalize_fn opts container ev ! j = container ! j"
    and "\<forall>j. nat (newIndex ev) \<le> j \<and> j < length container \<longrightarrow>
             collections_change normalize_fn opts container ev ! Suc j = container ! j"
  using assms nth_splice_insert[of "newIndex ev" container "normalize_fn ev opts"]
  by (simp_all add: collections_change_added splice_insert)

lemma collections_change_removed_valid:
  assumes "change_type ev = ''removed''" "0 \<le> oldIndex ev" "oldIndex ev < int (length container)"
  shows "collections_change normalize_fn opts container ev =
           take (nat (oldIndex ev)) container @ drop (Suc (nat (oldIndex ev))) container"
    and "Suc (length (collections_change normalize_fn opts container ev)) = length container"
    and "\<forall>j<nat (oldIndex ev). collections_change normalize_fn opts container ev ! j = container ! j"
    and "\<forall>j. nat (oldIndex ev) \<le> j \<and> Suc j < length container \<longrightarrow>
             collections_change normalize_fn opts container ev ! j = container ! Suc j"
  using assms nth_splice_delete[of "oldIndex ev" container]
  by (simp_all add: collections_change_removed splice_delete)

text \<open>
  Claim C1. For every container array and every change the sequence strategy applies:
  an \<open>added\<close> change inserts the normalized value at position \<open>newIndex\<close> and moves
  every element at a position \<open>\<ge> newIndex\<close> one place to the right; a \<open>removed\<close>
  change deletes the element at position \<open>oldIndex\<close> and moves every element at a
  position \<open>> oldIndex\<close> one place to the left. The index is one the remote client
  may report for the container: \<open>0 \<le> newIndex \<le> length\<close> for an insertion,
  \<open>0 \<le> oldIndex < length\<close> for a removal. In particular, from the empty array the
  changes \<open>added\<close> at 0, 1, 2 give the three normalized values in that order, and
  from \<open>[A, B, C]\<close> a \<open>removed\<close> at old index 1 gives \<open>[A, C]\<close>.
\<close>

theorem sequence_added_removed:
  fixes normalize_fn :: "'d doc_change \<Rightarrow> 'o \<Rightarrow> 'v"
  shows
  "(change_type ev = ''added'' \<and> 0 \<le> newIndex ev \<and> newIndex ev \<le> int (length container) \<longrightarrow>
      collections_change normalize_fn opts container ev =
        take (nat (newIndex ev)) container @ normalize_fn ev opts # drop (nat (newIndex ev)) container \<and>
      length (collections_change normalize_fn opts container ev) = Suc (length container) \<and>
      collections_change normalize_fn opts container ev ! nat (newIndex ev) = normalize_fn ev opts \<and>
      (\<forall>j<nat (newIndex ev). collections_change normalize_fn opts container ev ! j = container ! j) \<and>
      (\<forall>j. nat (newIndex ev) \<le> j \<and> j < length container \<longrightarrow>
           collections_change normalize_fn opts container ev ! Suc j = container ! j)) \<and>
   (change_type ev = ''removed'' \<and> 0 \<le> oldIndex ev \<and> oldIndex ev < int (length container) \<longrightarrow>
      collections_change normalize_fn opts container ev =
        take (nat (oldIndex ev)) container @ drop (Suc (nat (oldIndex ev))) container \<and>
      Suc (length (collections_change normalize_fn opts container ev)) = length container \<and>
      (\<forall>j<nat (oldIndex ev). collections_change normalize_fn opts container ev ! j = container ! j) \<and>
      (\<forall>j. nat (oldIndex ev) \<le> j \<and> Suc j < length container \<longrightarrow>
           collections_change normalize_fn opts container ev ! j = container ! Suc j)) \<and>
   collections_forEach normalize_fn opts []
     [\<lparr>change_type = ''added'', oldIndex = oa, newIndex = 0, doc = da\<rparr>,
      \<lparr>change_type = ''added'', oldIndex = ob, newIndex = 1, doc = db\<rparr>,
      \<lparr>change_type = ''added'', oldIndex = oc, newIndex = 2, doc = dc\<rparr>] =
   [normalize_fn \<lparr>change_type = ''added'', oldIndex = oa, newIndex = 0, doc = da\<rparr> opts,
    normalize_fn \<lparr>change_type = ''added'', oldIndex = ob, newIndex = 1, doc = db\<rparr> opts,
    normalize_fn \<lparr>change_type = ''added'', oldIndex = oc, newIndex = 2, doc = dc\<rparr> opts] \<and>
   collections_change normalize_fn opts [A, B, C]
      \<lparr>change_type = ''removed'', oldIndex = 1, newIndex = nr, doc = dr\<rparr> = [A, C]"
proof -
  have added: "change_type ev = ''added'' \<and> 0 \<le> newIndex ev \<and> newIndex ev \<le> int (length container) \<longrightarrow>
      collections_change normalize_fn opts container ev =
        take (nat (newIndex ev)) container @ normalize_fn ev opts # drop (nat (newIndex ev)) container \<and>
      length (collections_change normalize_fn opts container ev) = Suc (length container) \<and>
      collections_change normalize_fn opts container ev ! nat (newIndex ev) = normalize_fn ev opts \<and>
      (\<forall>j<nat (newIndex ev). collections_change normalize_fn opts container ev ! j = container ! j) \<and>
      (\<forall>j. nat (newIndex ev) \<le> j \<and> j < length container \<longrightarrow>
           collections_change normalize_fn opts container ev ! Suc j = container ! j)"
    using collections_change_added_valid[of ev container normalize_fn opts] by blast
  have removed: "change_type ev = ''removed'' \<and> 0 \<le> oldIndex ev \<and> oldIndex ev < int (length container) \<longrightarrow>
      collections_change normalize_fn opts container ev =
        take (nat (oldIndex ev)) container @ drop (Suc (nat (oldIndex ev))) container \<and>
      Suc (length (collections_change normalize_fn opts container ev)) = length container \<and>
      (\<forall>j<nat (oldIndex ev). collections_change normalize_fn opts container ev ! j = container ! j) \<and>
      (\<forall>j. nat (oldIndex ev) \<le> j \<and> Suc j < length container \<longrightarrow>
           collections_change normalize_fn opts container ev ! j = container ! Suc j)"
    using collections_change_removed_valid[of ev container normalize_fn opts] by blast
  from added removed ex_insert[of normalize_fn opts oa da ob db oc dc]
    ex_remove[of normalize_fn opts A B C nr dr]
  show ?thesis by (intro conjI)
qed

text \<open>The theorem at the array \<open>[A, C]\<close>, an insertion at index 1, and at \<open>[A, B, C]\<close>, a removal at index 1.\<close>

theorem sequence_added_removed_witness:
  "collections_change (\<lambda>s opts. doc_id (doc s)) () [''A'', ''C'']
     \<lparr>change_type = ''added'', oldIndex = - 1, newIndex = 1,
      doc = \<lparr>doc_id = ''B'', doc_data = (), doc_exists = True\<rparr>\<rparr> = [''A'', ''B'', ''C''] \<and>
   collections_change (\<lambda>s opts. doc_id (doc s)) () [''A'', ''B'', ''C'']
     \<lparr>change_type = ''removed'', oldIndex = 1, newIndex = - 1,
      doc = \<lparr>doc_id = ''B'', doc_data = (), doc_exists = True\<rparr>\<rparr> = [''A'', ''C'']"
proof -
  let ?n = "\<lambda>(s :: unit doc_change) (opts :: unit). doc_id (doc s)"
  let ?a = "\<lparr>change_type = ''added'', oldIndex = - 1, newIndex = 1,
              doc = \<lparr>doc_id = ''B'', doc_data = (), doc_exists = True\<rparr>\<rparr>"
  let ?r = "\<lparr>change_type = ''removed'', oldIndex = 1, newIndex = - 1,
              doc = \<lparr>doc_id = ''B'', doc_data = (), doc_exists = True\<rparr>\<rparr>"
  have pa: "change_type ?a = ''added'' \<and> 0 \<le> newIndex ?a \<and> newIndex ?a \<le> int (length [''A'', ''C''])"
    by simp
  have pr: "change_type ?r = ''removed'' \<and> 0 \<le> oldIndex ?r \<and>
            oldIndex ?r < int (length [''A'', ''B'', ''C''])"
    by simp
  have "collections_change ?n () [''A'', ''C''] ?a =
        take (nat (newIndex ?a)) [''A'', ''C''] @ ?n ?a () # drop (nat (newIndex ?a)) [''A'', ''C'']"
    using sequence_added_removed
      [where ev = ?a and container = "[''A'', ''C'']" and normalize_fn = ?n and opts = "()",
        THEN conjunct1, rule_format, OF pa]
    by (rule conjunct1)
  then have a: "collections_change ?n () [''A'', ''C''] ?a = [''A'', ''B'', ''C'']"
    by simp
  have "collections_change ?n () [''A'', ''B'', ''C''] ?r =
        take (nat (oldIndex ?r)) [''A'', ''B'', ''C''] @ drop (Suc (nat (oldIndex ?r))) [''A'', ''B'', ''C'']"
    using sequence_added_removed
      [where ev = ?r and container = "[''A'', ''B'', ''C'']" and normalize_fn = ?n and opts = "()",
        THEN conjunct2, THEN conjunct1, rule_format, OF pr]
    by (rule conjunct1)
  then have r: "collections_change ?n () [''A'', ''B'', ''C''] ?r = [''A'', ''C'']"
    by simp
  from a r show ?thesis by (rule conjI)
qed

lemma collections_change_modified_same:
  assumes "change_type ev = ''modified''" "oldIndex ev = newIndex ev"
    "0 \<le> newIndex ev" "newIndex ev < int (length container)"
  shows "collections_change normalize_fn opts container ev =
           container[nat (newIndex ev) := normalize_fn ev opts]"
  using assms by (simp add: collections_change_modified splice_replace)

lemma collections_change_modified_move:
  assumes "change_type ev = ''modified''" "oldIndex ev \<noteq> newIndex ev"
  shows "collections_change normalize_fn opts container ev =
           collections_change (\<lambda>s o'. normalize_fn ev opts) opts
             (collections_change normalize_fn opts container (ev\<lparr>change_type := ''removed''\<rparr>))
             (ev\<lparr>change_type := ''added''\<rparr>)"
  using assms
  by (simp add: collections_change_modified collections_change_added collections_change_removed)

lemma collections_change_modified_move_valid:
  assumes "change_type ev = ''modified''" "oldIndex ev \<noteq> newIndex ev"
    "0 \<le> oldIndex ev" "oldIndex ev < int (length container)"
    "0 \<le> newIndex ev" "newIndex ev < int (length container)"
  shows "collections_change normalize_fn opts container ev =
           take (nat (newIndex ev))
               (take (nat (oldIndex ev)) container @ drop (Suc (nat (oldIndex ev))) container) @
           normalize_fn ev opts #
           drop (nat (newIndex ev))
               (take (nat (oldIndex ev)) container @ drop (Suc (nat (oldIndex ev))) container)"
proof -
  let ?d = "take (nat (oldIndex ev)) container @ drop (Suc (nat (oldIndex ev))) container"
  have d: "splice_array container (oldIndex ev) 1 [] = ?d"
    using assms by (simp add: splice_delete)
  have "nat (oldIndex ev) < length container"
    using assms by linarith
  then have "Suc (length ?d) = length container"
    by simp
  then have "newIndex ev \<le> int (length ?d)"
    using assms by linarith
  then have i: "splice_array ?d (newIndex ev) 0 [normalize_fn ev opts] =
             take (nat (newIndex ev)) ?d @ normalize_fn ev opts # drop (nat (newIndex ev)) ?d"
    using assms by (simp only: splice_insert)
  have "collections_change normalize_fn opts container ev =
          splice_array (splice_array container (oldIndex ev) 1 []) (newIndex ev) 0
            [normalize_fn ev opts]"
    using assms by (simp add: collections_change_modified)
  also have "\<dots> = splice_array ?d (newIndex ev) 0 [normalize_fn ev opts]"
    by (simp only: d)
  finally show ?thesis
    by (simp only: i)
qed

lemma ex_modify_move:
  "collections_change normalize_fn opts [A, B, C]
      \<lparr>change_type = ''modified'', oldIndex = 0, newIndex = 2, doc = d\<rparr> =
   [B, C, normalize_fn \<lparr>change_type = ''modified'', oldIndex = 0, newIndex = 2, doc = d\<rparr> opts]"
  by (simp add: collections_change_modified splice_delete splice_insert)

lemma ex_modify_same:
  "collections_change normalize_fn opts [A, B, C]
      \<lparr>change_type = ''modified'', oldIndex = 1, newIndex = 1, doc = d\<rparr> =
   [A, normalize_fn \<lparr>change_type = ''modified'', oldIndex = 1, newIndex = 1, doc = d\<rparr> opts, C]"
  by (simp add: collections_change_modified splice_replace)

text \<open>
  Claim C2. For every container array and every \<open>modified\<close> change: when
  \<open>oldIndex = newIndex\<close> (an index of the array), the element at that position is
  replaced by the freshly normalized value and no other position changes; when
  \<open>oldIndex \<noteq> newIndex\<close>, the element at \<open>oldIndex\<close> is deleted and then the
  normalized value is inserted at \<open>newIndex\<close>, which is the \<open>removed\<close> step followed
  by the \<open>added\<close> step. From \<open>[A, B, C]\<close>, old index 0 and new index 2 give
  \<open>[B, C, A']\<close> with \<open>A'\<close> the value normalized from the change.
\<close>

theorem sequence_modified:
  fixes normalize_fn :: "'d doc_change \<Rightarrow> 'o \<Rightarrow> 'v"
  shows
  "(change_type ev = ''modified'' \<and> oldIndex ev = newIndex ev \<and>
    0 \<le> newIndex ev \<and> newIndex ev < int (length container) \<longrightarrow>
      collections_change normalize_fn opts container ev =
        container[nat (newIndex ev) := normalize_fn ev opts] \<and>
      length (collections_change normalize_fn opts container ev) = length container \<and>
      collections_change normalize_fn opts container ev ! nat (newIndex ev) = normalize_fn ev opts \<and>
      (\<forall>j. j \<noteq> nat (newIndex ev) \<longrightarrow>
           collections_change normalize_fn opts container ev ! j = container ! j)) \<and>
   (change_type ev = ''modified'' \<and> oldIndex ev \<noteq> newIndex ev \<longrightarrow>
      collections_change normalize_fn opts container ev =
        collections_change (\<lambda>s o'. normalize_fn ev opts) opts
          (collections_change normalize_fn opts container (ev\<lparr>change_type := ''removed''\<rparr>))
          (ev\<lparr>change_type := ''added''\<rparr>)) \<and>
   (change_type ev = ''modified'' \<and> oldIndex ev \<noteq> newIndex ev \<and>
    0 \<le> oldIndex ev \<and> oldIndex ev < int (length container) \<and>
    0 \<le> newIndex ev \<and> newIndex ev < int (length container) \<longrightarrow>
      collections_change normalize_fn opts container ev =
        take (nat (newIndex ev))
            (take (nat (oldIndex ev)) container @ drop (Suc (nat (oldIndex ev))) container) @
        normalize_fn ev opts #
        drop (nat (newIndex ev))
            (take (nat (oldIndex ev)) container @ drop (Suc (nat (oldIndex ev))) container)) \<and>
   collections_change normalize_fn opts [A, B, C]
      \<lparr>change_type = ''modified'', oldIndex = 0, newIndex = 2, doc = d\<rparr> =
     [B, C, normalize_fn \<lparr>change_type = ''modified'', oldIndex = 0, newIndex = 2, doc = d\<rparr> opts]"
proof -
  have same: "change_type ev = ''modified'' \<and> oldIndex ev = newIndex ev \<and>
    0 \<le> newIndex ev \<and> newIndex ev < int (length container) \<longrightarrow>
      collections_change normalize_fn opts container ev =
        container[nat (newIndex ev) := normalize_fn ev opts] \<and>
      length (collections_change normalize_fn opts container ev) = length container \<and>
      collections_change normalize_fn opts container ev ! nat (newIndex ev) = normalize_fn ev opts \<and>
      (\<forall>j. j \<noteq> nat (newIndex ev) \<longrightarrow>
           collections_change normalize_fn opts container ev ! j = container ! j)"
  proof
    assume h: "change_type ev = ''modified'' \<and> oldIndex ev = newIndex ev \<and>
      0 \<le> newIndex ev \<and> newIndex ev < int (length container)"
    then have r: "collections_change normalize_fn opts container ev =
        container[nat (newIndex ev) := normalize_fn ev opts]"
      by (simp add: collections_change_modified_same)
    from h have "nat (newIndex ev) < length container" by linarith
    then show "collections_change normalize_fn opts container ev =
        container[nat (newIndex ev) := normalize_fn ev opts] \<and>
      length (collections_change normalize_fn opts container ev) = length container \<and>
      collections_change normalize_fn opts container ev ! nat (newIndex ev) = normalize_fn ev opts \<and>
      (\<forall>j. j \<noteq> nat (newIndex ev) \<longrightarrow>
           collections_change normalize_fn opts container ev ! j = container ! j)"
      unfolding r by simp
  qed
  have move: "change_type ev = ''modified'' \<and> oldIndex ev \<noteq> newIndex ev \<longrightarrow>
      collections_change normalize_fn opts container ev =
        collections_change (\<lambda>s o'. normalize_fn ev opts) opts
          (collections_change normalize_fn opts container (ev\<lparr>change_type := ''removed''\<rparr>))
          (ev\<lparr>change_type := ''added''\<rparr>)"
    using collections_change_modified_move[of ev normalize_fn opts container] by blast
  have valid: "change_type ev = ''modified'' \<and> oldIndex ev \<noteq> newIndex ev \<and>
    0 \<le> oldIndex ev \<and> oldIndex ev < int (length container) \<and>
    0 \<le> newIndex ev \<and> newIndex ev < int (length container) \<longrightarrow>
      collections_change normalize_fn opts container ev =
        take (nat (newIndex ev))
            (take (nat (oldIndex ev)) container @ drop (Suc (nat (oldIndex ev))) container) @
        normalize_fn ev opts #
        drop (nat (newIndex ev))
            (take (nat (oldIndex ev)) container @ drop (Suc (nat (oldIndex ev))) container)"
    using collections_change_modified_move_valid[of ev container normalize_fn opts] by blast
  from same move valid ex_modify_move[of normalize_fn opts A B C d]
  show ?thesis by (intro conjI)
qed

text \<open>
  The theorem at \<open>[A, B, C]\<close>: a replacement at index 1, a move from 0 to 2, and the
  same move as a removal followed by an insertion.
\<close>

theorem sequence_modified_witness:
  "collections_change (\<lambda>s opts. doc_id (doc s)) () [''A'', ''B'', ''C'']
     \<lparr>change_type = ''modified'', oldIndex = 1, newIndex = 1,
      doc = \<lparr>doc_id = ''X'', doc_data = (), doc_exists = True\<rparr>\<rparr> = [''A'', ''X'', ''C''] \<and>
   collections_change (\<lambda>s opts. doc_id (doc s)) () [''A'', ''B'', ''C'']
     \<lparr>change_type = ''modified'', oldIndex = 0, newIndex = 2,
      doc = \<lparr>doc_id = ''X'', doc_data = (), doc_exists = True\<rparr>\<rparr> = [''B'', ''C'', ''X''] \<and>
   collections_change (\<lambda>s opts. ''X'') ()
     (collections_change (\<lambda>s opts. doc_id (doc s)) () [''A'', ''B'', ''C'']
        \<lparr>change_type = ''removed'', oldIndex = 0, newIndex = 2,
         doc = \<lparr>doc_id = ''X'', doc_data = (), doc_exists = True\<rparr>\<rparr>)
     \<lparr>change_type = ''added'', oldIndex = 0, newIndex = 2,
      doc = \<lparr>doc_id = ''X'', doc_data = (), doc_exists = True\<rparr>\<rparr> = [''B'', ''C'', ''X'']"
proof -
  let ?n = "\<lambda>(s :: unit doc_change) (opts :: unit). doc_id (doc s)"
  let ?c = "[''A'', ''B'', ''C'']"
  let ?s = "\<lparr>change_type = ''modified'', oldIndex = 1, newIndex = 1,
              doc = \<lparr>doc_id = ''X'', doc_data = (), doc_exists = True\<rparr>\<rparr>"
  let ?m = "\<lparr>change_type = ''modified'', oldIndex = 0, newIndex = 2,
              doc = \<lparr>doc_id = ''X'', doc_data = (), doc_exists = True\<rparr>\<rparr>"
  have ps: "change_type ?s = ''modified'' \<and> oldIndex ?s = newIndex ?s \<and>
            0 \<le> newIndex ?s \<and> newIndex ?s < int (length ?c)"
    by simp
  have pm: "change_type ?m = ''modified'' \<and> oldIndex ?m \<noteq> newIndex ?m \<and>
            0 \<le> oldIndex ?m \<and> oldIndex ?m < int (length ?c) \<and>
            0 \<le> newIndex ?m \<and> newIndex ?m < int (length ?c)"
    by simp
  have "collections_change ?n () ?c ?s = ?c[nat (newIndex ?s) := ?n ?s ()]"
    using sequence_modified
      [where ev = ?s and container = ?c and normalize_fn = ?n and opts = "()",
        THEN conjunct1, rule_format, OF ps]
    by (rule conjunct1)
  then have s: "collections_change ?n () ?c ?s = [''A'', ''X'', ''C'']"
    by simp
  have "collections_change ?n () ?c ?m =
        take (nat (newIndex ?m))
            (take (nat (oldIndex ?m)) ?c @ drop (Suc (nat (oldIndex ?m))) ?c) @
        ?n ?m () #
        drop (nat (newIndex ?m))
            (take (nat (oldIndex ?m)) ?c @ drop (Suc (nat (oldIndex ?m))) ?c)"
    using sequence_modified
      [where ev = ?m and container = ?c and normalize_fn = ?n and opts = "()",
        THEN conjunct2, THEN conjunct2, THEN conjunct1, rule_format, OF pm] .
  then have m: "collections_change ?n () ?c ?m = [''B'', ''C'', ''X'']"
    by simp
  have pv: "change_type ?m = ''modified'' \<and> oldIndex ?m \<noteq> newIndex ?m"
    by simp
  have "collections_change ?n () ?c ?m =
        collections_change (\<lambda>s o'. ?n ?m ()) ()
          (collections_change ?n () ?c (?m\<lparr>change_type := ''removed''\<rparr>))
          (?m\<lparr>change_type := ''added''\<rparr>)"
    using sequence_modified
      [where ev = ?m and container = ?c and normalize_fn = ?n and opts = "()",
        THEN conjunct2, THEN conjunct1, THEN mp, OF pv] .
  with m have v: "collections_change (\<lambda>s o'. ?n ?m ()) ()
          (collections_change ?n () ?c (?m\<lparr>change_type := ''removed''\<rparr>))
          (?m\<lparr>change_type := ''added''\<rparr>) = [''B'', ''C'', ''X'']"
    by simp
  from s m v show ?thesis by simp
qed

subsection \<open>Changes of an unknown type\<close>

lemma collections_change_other:
  "change_type ev \<noteq> ''added'' \<Longrightarrow> change_type ev \<noteq> ''removed'' \<Longrightarrow>
   change_type ev \<noteq> ''modified'' \<Longrightarrow> collections_change normalize_fn opts container ev = container"
  by (simp add: collections_change_def)

lemma collectionOfObjects_change_other:
  "change_type ev \<noteq> ''added'' \<Longrightarrow> change_type ev \<noteq> ''removed'' \<Longrightarrow>
   change_type ev \<noteq> ''modified'' \<Longrightarrow> collectionOfObjects_change target ev = target"
  by (simp add: collectionOfObjects_change_def)

lemma collections_forEach_other:
  "\<forall>ev \<in> set evs. change_type ev \<notin> {''added'', ''removed'', ''modified''} \<Longrightarrow>
   collections_forEach normalize_fn opts container evs = container"
  unfolding collections_forEach_def
  by (induction evs arbitrary: container) (simp_all add: collections_change_other)

lemma collectionOfObjects_forEach_other:
  "\<forall>ev \<in> set evs. change_type ev \<notin> {''added'', ''removed'', ''modified''} \<Longrightarrow>
   collectionOfObjects_forEach target evs = target"
  unfolding collectionOfObjects_forEach_def
  by (induction evs arbitrary: target) (simp_all add: collectionOfObjects_change_other)

text \<open>
  Claim C9. For every change whose type is none of \<open>added\<close>, \<open>removed\<close>,
  \<open>modified\<close>, the sequence strategy and the keyed strategy both leave the container
  as it was; the same holds for a whole notification made of such changes. Neither
  function has a failing branch: the change is passed over in silence.
\<close>

theorem unknown_change_ignored:
  fixes normalize_fn :: "'d doc_change \<Rightarrow> 'o \<Rightarrow> 'v"
  shows
  "(change_type ev \<notin> {''added'', ''removed'', ''modified''} \<longrightarrow>
      collections_change normalize_fn opts container ev = container \<and>
      collectionOfObjects_change target ev = target) \<and>
   ((\<forall>ev \<in> set evs. change_type ev \<notin> {''added'', ''removed'', ''modified''}) \<longrightarrow>
      collections_forEach normalize_fn opts container evs = container \<and>
      collectionOfObjects_forEach target evs = target)"
  using collections_forEach_other[of evs normalize_fn opts container]
    collectionOfObjects_forEach_other[of evs target]
  by (simp add: collections_change_other collectionOfObjects_change_other)

text \<open>The theorem at a change of type \<open>metadata\<close>.\<close>

theorem unknown_change_ignored_witness:
  "collections_change (\<lambda>s opts. doc_id (doc s)) () [''A'', ''B'']
     \<lparr>change_type = ''metadata'', oldIndex = 0, newIndex = 1,
      doc = \<lparr>doc_id = ''X'', doc_data = (1::nat), doc_exists = True\<rparr>\<rparr> = [''A'', ''B''] \<and>
   collectionOfObjects_change [''A'' \<mapsto> 0]
     \<lparr>change_type = ''metadata'', oldIndex = 0, newIndex = 1,
      doc = \<lparr>doc_id = ''X'', doc_data = (1::nat), doc_exists = True\<rparr>\<rparr> = [''A'' \<mapsto> 0] \<and>
   collections_forEach (\<lambda>s opts. doc_id (doc s)) () [''A'', ''B'']
     [\<lparr>change_type = ''metadata'', oldIndex = 0, newIndex = 1,
       doc = \<lparr>doc_id = ''X'', doc_data = (1::nat), doc_exists = True\<rparr>\<rparr>] = [''A'', ''B''] \<and>
   collectionOfObjects_forEach [''A'' \<mapsto> 0]
     [\<lparr>change_type = ''metadata'', oldIndex = 0, newIndex = 1,
       doc = \<lparr>doc_id = ''X'', doc_data = (1::nat), doc_exists = True\<rparr>\<rparr>] = [''A'' \<mapsto> 0]"
proof -
  let ?n = "\<lambda>(s :: nat doc_change) (opts :: unit). doc_id (doc s)"
  let ?ev = "\<lparr>change_type = ''metadata'', oldIndex = 0, newIndex = 1,
      doc = \<lparr>doc_id = ''X'', doc_data = (1::nat), doc_exists = True\<rparr>\<rparr>"
  have p1: "change_type ?ev \<notin> {''added'', ''removed'', ''modified''}"
    by simp
  have p2: "\<forall>ev \<in> set [?ev]. change_type ev \<notin> {''added'', ''removed'', ''modified''}"
    by simp
  note t = unknown_change_ignored
      [where ev = ?ev and evs = "[?ev]" and normalize_fn = ?n and opts = "()"
         and container = "[''A'', ''B'']" and target = "[''A'' \<mapsto> 0]"]
  from t[THEN conjunct1, THEN mp, OF p1] t[THEN conjunct2, THEN mp, OF p2]
  show ?thesis by (intro conjI) blast+
qed

subsection \<open>One change applied to the keyed container\<close>

lemma collectionOfObjects_change_set:
  "change_type ev = ''added'' \<or> change_type ev = ''modified'' \<Longrightarrow>
   collectionOfObjects_change target ev = target(doc_id (doc ev) \<mapsto> doc_data (doc ev))"
  by (auto simp: collectionOfObjects_change_def)

lemma collectionOfObjects_change_delete:
  "change_type ev = ''removed'' \<Longrightarrow>
   collectionOfObjects_change target ev = target(doc_id (doc ev) := None)"
  by (simp add: collectionOfObjects_change_def)

lemma added_modified_same_key:
  "collectionOfObjects_forEach target
     [\<lparr>change_type = ''added'', oldIndex = o1, newIndex = n1,
       doc = \<lparr>doc_id = k, doc_data = d1, doc_exists = e1\<rparr>\<rparr>,
      \<lparr>change_type = ''modified'', oldIndex = o2, newIndex = n2,
       doc = \<lparr>doc_id = k, doc_data = d2, doc_exists = e2\<rparr>\<rparr>] = target(k \<mapsto> d2)"
  by (simp add: collectionOfObjects_forEach_def collectionOfObjects_change_set)

lemma added_modified_removed_same_key:
  "collectionOfObjects_forEach target
     [\<lparr>change_type = ''added'', oldIndex = o1, newIndex = n1,
       doc = \<lparr>doc_id = k, doc_data = d1, doc_exists = e1\<rparr>\<rparr>,
      \<lparr>change_type = ''modified'', oldIndex = o2, newIndex = n2,
       doc = \<lparr>doc_id = k, doc_data = d2, doc_exists = e2\<rparr>\<rparr>,
      \<lparr>change_type = ''removed'', oldIndex = o3, newIndex = n3,
       doc = \<lparr>doc_id = k, doc_data = d3, doc_exists = e3\<rparr>\<rparr>] = target(k := None)"
  by (simp add: collectionOfObjects_forEach_def collectionOfObjects_change_set
      collectionOfObjects_change_delete)

text \<open>
  Claim C6. For every keyed container and every change the keyed strategy applies: an
  \<open>added\<close> or \<open>modified\<close> change sets the entry at the document's id to the
  document's raw data (what \<^verbatim>\<open>doc.data()\<close> returns, with no identity field added), and
  a \<open>removed\<close> change deletes the entry at that id. Hence \<open>added\<close> then \<open>modified\<close>
  for one id leaves one entry under that id, holding the later data, and a
  \<open>removed\<close> after them leaves no entry there; from the empty container the results
  are a container with that single key, and the empty container.
\<close>

theorem keyed_set_delete:
  "(change_type ev = ''added'' \<or> change_type ev = ''modified'' \<longrightarrow>
      collectionOfObjects_change target ev = target(doc_id (doc ev) \<mapsto> doc_data (doc ev))) \<and>
   (change_type ev = ''removed'' \<longrightarrow>
      collectionOfObjects_change target ev = target(doc_id (doc ev) := None)) \<and>
   collectionOfObjects_forEach target
     [\<lparr>change_type = ''added'', oldIndex = o1, newIndex = n1,
       doc = \<lparr>doc_id = k, doc_data = d1, doc_exists = e1\<rparr>\<rparr>,
      \<lparr>change_type = ''modified'', oldIndex = o2, newIndex = n2,
       doc = \<lparr>doc_id = k, doc_data = d2, doc_exists = e2\<rparr>\<rparr>] = target(k \<mapsto> d2) \<and>
   collectionOfObjects_forEach target
     [\<lparr>change_type = ''added'', oldIndex = o1, newIndex = n1,
       doc = \<lparr>doc_id = k, doc_data = d1, doc_exists = e1\<rparr>\<rparr>,
      \<lparr>change_type = ''modified'', oldIndex = o2, newIndex = n2,
       doc = \<lparr>doc_id = k, doc_data = d2, doc_exists = e2\<rparr>\<rparr>,
      \<lparr>change_type = ''removed'', oldIndex = o3, newIndex = n3,
       doc = \<lparr>doc_id = k, doc_data = d3, doc_exists = e3\<rparr>\<rparr>] = target(k := None) \<and>
   dom (collectionOfObjects_forEach Map.empty
     [\<lparr>change_type = ''added'', oldIndex = o1, newIndex = n1,
       doc = \<lparr>doc_id = k, doc_data = d1, doc_exists = e1\<rparr>\<rparr>,
      \<lparr>change_type = ''modified'', oldIndex = o2, newIndex = n2,
       doc = \<lparr>doc_id = k, doc_data = d2, doc_exists = e2\<rparr>\<rparr>]) = {k} \<and>
   collectionOfObjects_forEach Map.empty
     [\<lparr>change_type = ''added'', oldIndex = o1, newIndex = n1,
       doc = \<lparr>doc_id = k, doc_data = d1, doc_exists = e1\<rparr>\<rparr>,
      \<lparr>change_type = ''modified'', oldIndex = o2, newIndex = n2,
       doc = \<lparr>doc_id = k, doc_data = d2, doc_exists = e2\<rparr>\<rparr>,
      \<lparr>change_type = ''removed'', oldIndex = o3, newIndex = n3,
       doc = \<lparr>doc_id = k, doc_data = d3, doc_exists = e3\<rparr>\<rparr>] = Map.empty"
  by (simp only: added_modified_same_key added_modified_removed_same_key)
     (simp add: collectionOfObjects_change_set collectionOfObjects_change_delete)

text \<open>The theorem at the container \<open>{a: 1}\<close>: a \<open>modified\<close> and a \<open>removed\<close> change for \<open>a\<close>.\<close>

theorem keyed_set_delete_witness:
  "collectionOfObjects_change [''a'' \<mapsto> (1::nat)]
     \<lparr>change_type = ''modified'', oldIndex = - 1, newIndex = - 1,
      doc = \<lparr>doc_id = ''a'', doc_data = 2, doc_exists = True\<rparr>\<rparr> = [''a'' \<mapsto> 2] \<and>
   collectionOfObjects_change [''a'' \<mapsto> (1::nat)]
     \<lparr>change_type = ''removed'', oldIndex = - 1, newIndex = - 1,
      doc = \<lparr>doc_id = ''a'', doc_data = 2, doc_exists = True\<rparr>\<rparr> = Map.empty"
proof -
  let ?m = "\<lparr>change_type = ''modified'', oldIndex = - 1, newIndex = - 1,
      doc = \<lparr>doc_id = ''a'', doc_data = (2::nat), doc_exists = True\<rparr>\<rparr>"
  let ?r = "\<lparr>change_type = ''removed'', oldIndex = - 1, newIndex = - 1,
      doc = \<lparr>doc_id = ''a'', doc_data = (2::nat), doc_exists = True\<rparr>\<rparr>"
  have pm: "change_type ?m = ''added'' \<or> change_type ?m = ''modified''"
    by simp
  have pr: "change_type ?r = ''removed''"
    by simp
  have "collectionOfObjects_change [''a'' \<mapsto> (1::nat)] ?m =
          [''a'' \<mapsto> 1](doc_id (doc ?m) \<mapsto> doc_data (doc ?m))"
    using keyed_set_delete[where ev = ?m and target = "[''a'' \<mapsto> (1::nat)]",
        THEN conjunct1, rule_format, OF pm] .
  then have m: "collectionOfObjects_change [''a'' \<mapsto> (1::nat)] ?m = [''a'' \<mapsto> 2]"
    by simp
  have "collectionOfObjects_change [''a'' \<mapsto> (1::nat)] ?r =
          [''a'' \<mapsto> 1](doc_id (doc ?r) := None)"
    using keyed_set_delete[where ev = ?r and target = "[''a'' \<mapsto> (1::nat)]",
        THEN conjunct2, THEN conjunct1, rule_format, OF pr] .
  then have r: "collectionOfObjects_change [''a'' \<mapsto> (1::nat)] ?r = Map.empty"
    by simp
  from m r show ?thesis by (rule conjI)
qed

subsection \<open>Promises in the world\<close>

lemma settle_settled: "s \<noteq> Pending \<Longrightarrow> settle s s' = s"
  by (cases s) (simp_all add: settle_def)

lemma settle_Pending: "settle Pending s' = s'"
  by (simp add: settle_def)

lemma heap_resolve_promise: "heap (resolve_promise w p v) = heap w"
  by (simp add: resolve_promise_def)

lemma heap_reject_promise: "heap (reject_promise w p x) = heap w"
  by (simp add: reject_promise_def)

lemma heap_array_resolve_promise: "heap_array (resolve_promise w p v) a = heap_array w a"
  by (simp add: heap_array_def heap_resolve_promise)

lemma heap_array_reject_promise: "heap_array (reject_promise w p x) a = heap_array w a"
  by (simp add: heap_array_def heap_reject_promise)

lemma heap_array_update:
  "a < length (heap w) \<Longrightarrow> heap_array (w\<lparr>heap := (heap w)[a := ArrayObj xs]\<rparr>) a = Some xs"
  by (simp add: heap_array_def)

lemma heap_array_Some_less: "heap_array w a = Some c \<Longrightarrow> a < length (heap w)"
  by (simp add: heap_array_def split: if_splits)

lemma promise_state_resolve_promise:
  "promise_state (resolve_promise w p v) q =
     (if q = p then map_option (\<lambda>s. settle s (Fulfilled v)) (promise_state w p)
      else promise_state w q)"
  by (simp add: promise_state_def resolve_promise_def promise_resolve_def)

lemma promise_state_reject_promise:
  "promise_state (reject_promise w p x) q =
     (if q = p then map_option (\<lambda>s. settle s (Rejected x)) (promise_state w p)
      else promise_state w q)"
  by (simp add: promise_state_def reject_promise_def promise_reject_def)

lemma promise_state_heap_update [simp]:
  "promise_state (w\<lparr>heap := h\<rparr>) q = promise_state w q"
  by (simp add: promise_state_def)

lemma settled_resolve_promise:
  "promise_state w q = Some s \<Longrightarrow> s \<noteq> Pending \<Longrightarrow>
   promise_state (resolve_promise w p v) q = Some s"
  by (auto simp: promise_state_resolve_promise settle_settled)

lemma settled_reject_promise:
  "promise_state w q = Some s \<Longrightarrow> s \<noteq> Pending \<Longrightarrow>
   promise_state (reject_promise w p x) q = Some s"
  by (auto simp: promise_state_reject_promise settle_settled)

lemma resolve_calls_resolve_promise:
  "p < length (promises w) \<Longrightarrow>
   resolve_calls (promises (resolve_promise w p v) ! p) = Suc (resolve_calls (promises w ! p))"
  by (simp add: resolve_promise_def promise_resolve_def)

subsection \<open>The listener of \<^verbatim>\<open>collections\<close>\<close>

lemma collections_next_container:
  "heap_array w (l_container l) = Some c \<Longrightarrow>
   heap_array (collections_next normalize_fn opts w l evs) (l_container l) =
     Some (collections_forEach normalize_fn opts c evs)"
  by (simp add: collections_next_def heap_array_resolve_promise heap_array_update
      heap_array_Some_less)

lemma collections_next_promise:
  "heap_array w (l_container l) = Some c \<Longrightarrow>
   promise_state (collections_next normalize_fn opts w l evs) q =
     (if q = l_promise l
      then map_option (\<lambda>s. settle s (Fulfilled (Ref (l_container l)))) (promise_state w q)
      else promise_state w q)"
  by (simp add: collections_next_def promise_state_resolve_promise)

lemma collections_next_settled:
  "promise_state w q = Some s \<Longrightarrow> s \<noteq> Pending \<Longrightarrow>
   promise_state (collections_next normalize_fn opts w l evs) q = Some s"
  by (simp add: collections_next_def settled_resolve_promise split: option.splits)

lemma collections_next_resolve_calls:
  "heap_array w (l_container l) = Some c \<Longrightarrow> l_promise l < length (promises w) \<Longrightarrow>
   resolve_calls (promises (collections_next normalize_fn opts w l evs) ! l_promise l) =
     Suc (resolve_calls (promises w ! l_promise l))"
  by (simp add: collections_next_def resolve_promise_def promise_resolve_def)

lemma collections_error_settled:
  "promise_state w q = Some s \<Longrightarrow> s \<noteq> Pending \<Longrightarrow>
   promise_state (collections_error w l e) q = Some s"
  by (simp add: collections_error_def settled_reject_promise)

lemma collections_error_heap: "heap (collections_error w l e) = heap w"
  by (simp add: collections_error_def heap_reject_promise)

lemma collections_forEach_append:
  "collections_forEach normalize_fn opts c (xs @ ys) =
     collections_forEach normalize_fn opts (collections_forEach normalize_fn opts c xs) ys"
  by (simp add: collections_forEach_def)

lemma collections_forEach_Nil: "collections_forEach normalize_fn opts c [] = c"
  by (simp add: collections_forEach_def)

lemma length_promises_resolve_promise:
  "length (promises (resolve_promise w p v)) = length (promises w)"
  by (simp add: resolve_promise_def)

lemma length_promises_reject_promise:
  "length (promises (reject_promise w p x)) = length (promises w)"
  by (simp add: reject_promise_def)

lemma collections_next_length_promises:
  "length (promises (collections_next normalize_fn opts w l evs)) = length (promises w)"
  by (simp add: collections_next_def length_promises_resolve_promise split: option.splits)

lemma collections_error_container:
  "heap_array (collections_error w l e) a = heap_array w a"
  by (simp add: collections_error_def heap_array_reject_promise)

lemma collections_error_resolve_calls:
  "resolve_calls (promises (collections_error w l e) ! p) = resolve_calls (promises w ! p)"
  by (cases "p = l_promise l")
     (simp_all add: collections_error_def reject_promise_def promise_reject_def)

lemma collections_error_length_promises:
  "length (promises (collections_error w l e)) = length (promises w)"
  by (simp add: collections_error_def length_promises_reject_promise)

lemma collections_run_Nil: "collections_run normalize_fn opts w l [] = w"
  by (simp add: collections_run_def)

lemma collections_run_Cons:
  "collections_run normalize_fn opts w l (nt # ns) =
     collections_run normalize_fn opts (collections_notify normalize_fn opts w l nt) l ns"
  by (simp add: collections_run_def)

lemma collections_run_container:
  "heap_array w (l_container l) = Some c \<Longrightarrow>
   heap_array (collections_run normalize_fn opts w l ns) (l_container l) =
     Some (collections_forEach normalize_fn opts c (concat (map notification_changes ns)))"
proof (induction ns arbitrary: w c)
  case Nil
  then show ?case by (simp add: collections_run_Nil collections_forEach_Nil)
next
  case (Cons nt ns)
  show ?case
  proof (cases nt)
    case (Next evs)
    have "heap_array (collections_notify normalize_fn opts w l nt) (l_container l) =
            Some (collections_forEach normalize_fn opts c evs)"
      using Cons.prems Next by (simp add: collections_notify_def collections_next_container)
    from Cons.IH[OF this] show ?thesis
      using Next by (simp add: collections_run_Cons collections_forEach_append)
  next
    case (Failure e)
    have "heap_array (collections_notify normalize_fn opts w l nt) (l_container l) = Some c"
      using Cons.prems Failure by (simp add: collections_notify_def collections_error_container)
    from Cons.IH[OF this] show ?thesis
      using Failure by (simp add: collections_run_Cons)
  qed
qed

lemma collections_run_settled:
  "promise_state w q = Some s \<Longrightarrow> s \<noteq> Pending \<Longrightarrow>
   promise_state (collections_run normalize_fn opts w l ns) q = Some s"
proof (induction ns arbitrary: w)
  case Nil
  then show ?case by (simp add: collections_run_Nil)
next
  case (Cons nt ns)
  have "promise_state (collections_notify normalize_fn opts w l nt) q = Some s"
    using Cons.prems
    by (cases nt)
       (simp_all add: collections_notify_def collections_next_settled collections_error_settled)
  from Cons.IH[OF this Cons.prems(2)] show ?case
    by (simp add: collections_run_Cons)
qed

lemma collections_run_resolve_calls:
  "heap_array w (l_container l) = Some c \<Longrightarrow> l_promise l < length (promises w) \<Longrightarrow>
   resolve_calls (promises (collections_run normalize_fn opts w l ns) ! l_promise l) =
     resolve_calls (promises w ! l_promise l) + length (filter is_batch ns)"
proof (induction ns arbitrary: w c)
  case Nil
  then show ?case by (simp add: collections_run_Nil)
next
  case (Cons nt ns)
  show ?case
  proof (cases nt)
    case (Next evs)
    let ?w = "collections_notify normalize_fn opts w l nt"
    have h: "heap_array ?w (l_container l) = Some (collections_forEach normalize_fn opts c evs)"
      using Cons.prems Next by (simp add: collections_notify_def collections_next_container)
    have n: "l_promise l < length (promises ?w)"
      using Cons.prems Next by (simp add: collections_notify_def collections_next_length_promises)
    have r: "resolve_calls (promises ?w ! l_promise l) = Suc (resolve_calls (promises w ! l_promise l))"
      using Cons.prems Next
      by (simp add: collections_notify_def collections_next_resolve_calls)
    from Cons.IH[OF h n] r show ?thesis
      using Next by (simp add: collections_run_Cons)
  next
    case (Failure e)
    let ?w = "collections_notify normalize_fn opts w l nt"
    have h: "heap_array ?w (l_container l) = Some c"
      using Cons.prems Failure by (simp add: collections_notify_def collections_error_container)
    have n: "l_promise l < length (promises ?w)"
      using Cons.prems Failure by (simp add: collections_notify_def collections_error_length_promises)
    have r: "resolve_calls (promises ?w ! l_promise l) = resolve_calls (promises w ! l_promise l)"
      using Failure by (simp add: collections_notify_def collections_error_resolve_calls)
    from Cons.IH[OF h n] r show ?thesis
      using Failure by (simp add: collections_run_Cons)
  qed
qed

subsection \<open>A binding opened by \<^verbatim>\<open>$binding\<close> and its first notification\<close>

text \<open>
  The world the examples below start from: \<^verbatim>\<open>$binding('items', query)\<close> on a new owner,
  and the same world after a first batch that adds the document \<open>A\<close>.
\<close>

lemma binding_query:
  "binding (new_vm :: ('v, 'd, 'e) world) ''items'' (Plain \<lparr>path = ''items'', has_where = True\<rparr>) =
     (\<lparr>firestore = Some [(''items'', \<lparr>path = ''items'', has_where = True\<rparr>)],
       props = [''items'' \<mapsto> Ref 0],
       heap = [ArrayObj []],
       promises = [new_promise],
       listeners = [\<lparr>l_strategy = Collections, l_key = ''items'', l_container = 0, l_promise = 0\<rparr>]\<rparr>,
      Direct 0)"
  by (simp add: binding_def ensure_firestore_def new_vm_def bind_def bind_resolve_def bind_reject_def
      bind_objects_def bind_source_def bind_executor_def bind_strategy_def collections_def
      open_binding_def defineReactive_def Let_def)

subsection \<open>The listener of \<^verbatim>\<open>collectionOfObjects\<close>\<close>

lemma heap_object_resolve_promise: "heap_object (resolve_promise w p v) a = heap_object w a"
  by (simp add: heap_object_def heap_resolve_promise)

lemma heap_object_reject_promise: "heap_object (reject_promise w p x) a = heap_object w a"
  by (simp add: heap_object_def heap_reject_promise)

lemma heap_object_update:
  "a < length (heap w) \<Longrightarrow> heap_object (w\<lparr>heap := (heap w)[a := PlainObj m]\<rparr>) a = Some m"
  by (simp add: heap_object_def)

lemma heap_object_Some_less: "heap_object w a = Some m \<Longrightarrow> a < length (heap w)"
  by (simp add: heap_object_def split: if_splits)

lemma collectionOfObjects_next_Some:
  "props w (l_key l) = Some (Ref a) \<Longrightarrow> heap_object w a = Some m \<Longrightarrow>
   collectionOfObjects_next w l evs =
     Some (resolve_promise
       (w\<lparr>heap := (heap w)[a := PlainObj (collectionOfObjects_forEach m evs)]\<rparr>)
       (l_promise l) (Ref (l_container l)))"
  by (simp add: collectionOfObjects_next_def)

lemma collectionOfObjects_error_props: "props (collectionOfObjects_error w l e) = props w"
  by (simp add: collectionOfObjects_error_def reject_promise_def)

lemma collectionOfObjects_error_object:
  "heap_object (collectionOfObjects_error w l e) a = heap_object w a"
  by (simp add: collectionOfObjects_error_def heap_object_reject_promise)

lemma collectionOfObjects_error_settled:
  "promise_state w q = Some s \<Longrightarrow> s \<noteq> Pending \<Longrightarrow>
   promise_state (collectionOfObjects_error w l e) q = Some s"
  by (simp add: collectionOfObjects_error_def settled_reject_promise)

lemma collectionOfObjects_next_after_error:
  assumes "props w (l_key l) = Some (Ref a)" "heap_object w a = Some m"
    "promise_state w (l_promise l) = Some (Fulfilled v)"
  shows "\<exists>w'. collectionOfObjects_next (collectionOfObjects_error w l e) l evs = Some w' \<and>
           promise_state w' (l_promise l) = Some (Fulfilled v) \<and>
           heap_object w' a = Some (collectionOfObjects_forEach m evs)"
proof -
  let ?w = "collectionOfObjects_error w l e"
  let ?w' = "resolve_promise
       (?w\<lparr>heap := (heap ?w)[a := PlainObj (collectionOfObjects_forEach m evs)]\<rparr>)
       (l_promise l) (Ref (l_container l))"
  have p: "props ?w (l_key l) = Some (Ref a)"
    using assms(1) by (simp add: collectionOfObjects_error_props)
  have h: "heap_object ?w a = Some m"
    using assms(2) by (simp add: collectionOfObjects_error_object)
  have s: "promise_state ?w (l_promise l) = Some (Fulfilled v)"
    using assms(3) by (simp add: collectionOfObjects_error_settled)
  have 1: "collectionOfObjects_next ?w l evs = Some ?w'"
    using p h by (rule collectionOfObjects_next_Some)
  have 2: "promise_state ?w' (l_promise l) = Some (Fulfilled v)"
    using s by (simp add: settled_resolve_promise)
  have 3: "heap_object ?w' a = Some (collectionOfObjects_forEach m evs)"
    using h by (simp add: heap_object_resolve_promise heap_object_update heap_object_Some_less)
  from 1 2 3 show ?thesis by blast
qed

lemma collectionOfObjects_next_step:
  assumes "props w (l_key l) = Some (Ref a)" "heap_object w a = Some m"
  shows "\<exists>w'. collectionOfObjects_next w l evs = Some w' \<and>
           props w' = props w \<and>
           heap_object w' a = Some (collectionOfObjects_forEach m evs) \<and>
           length (promises w') = length (promises w) \<and>
           (l_promise l < length (promises w) \<longrightarrow>
              resolve_calls (promises w' ! l_promise l) =
                Suc (resolve_calls (promises w ! l_promise l))) \<and>
           promise_state w' (l_promise l) =
             map_option (\<lambda>s. settle s (Fulfilled (Ref (l_container l))))
               (promise_state w (l_promise l))"
proof -
  let ?h = "w\<lparr>heap := (heap w)[a := PlainObj (collectionOfObjects_forEach m evs)]\<rparr>"
  let ?w' = "resolve_promise ?h (l_promise l) (Ref (l_container l))"
  have 1: "collectionOfObjects_next w l evs = Some ?w'"
    using assms by (rule collectionOfObjects_next_Some)
  have 2: "props ?w' = props w"
    by (simp add: resolve_promise_def)
  have 3: "heap_object ?w' a = Some (collectionOfObjects_forEach m evs)"
    using assms(2) by (simp add: heap_object_resolve_promise heap_object_update heap_object_Some_less)
  have 4: "length (promises ?w') = length (promises w)"
    by (simp add: length_promises_resolve_promise)
  have 5: "l_promise l < length (promises w) \<longrightarrow>
           resolve_calls (promises ?w' ! l_promise l) = Suc (resolve_calls (promises w ! l_promise l))"
    by (simp add: resolve_promise_def promise_resolve_def)
  have 6: "promise_state ?w' (l_promise l) =
             map_option (\<lambda>s. settle s (Fulfilled (Ref (l_container l))))
               (promise_state w (l_promise l))"
    by (simp add: promise_state_resolve_promise)
  from 1 2 3 4 5 6 show ?thesis by blast
qed

lemma collectionOfObjects_error_step:
  "props (collectionOfObjects_error w l e) = props w \<and>
   heap_object (collectionOfObjects_error w l e) a = heap_object w a \<and>
   length (promises (collectionOfObjects_error w l e)) = length (promises w) \<and>
   resolve_calls (promises (collectionOfObjects_error w l e) ! p) = resolve_calls (promises w ! p) \<and>
   promise_state (collectionOfObjects_error w l e) (l_promise l) =
     map_option (\<lambda>s. settle s (Rejected (Error e))) (promise_state w (l_promise l))"
proof -
  have "resolve_calls (promises (collectionOfObjects_error w l e) ! p) = resolve_calls (promises w ! p)"
    by (cases "p = l_promise l")
       (simp_all add: collectionOfObjects_error_def reject_promise_def promise_reject_def)
  moreover have "length (promises (collectionOfObjects_error w l e)) = length (promises w)"
    by (simp add: collectionOfObjects_error_def length_promises_reject_promise)
  moreover have "promise_state (collectionOfObjects_error w l e) (l_promise l) =
      map_option (\<lambda>s. settle s (Rejected (Error e))) (promise_state w (l_promise l))"
    by (simp add: collectionOfObjects_error_def promise_state_reject_promise)
  ultimately show ?thesis
    by (simp add: collectionOfObjects_error_props collectionOfObjects_error_object)
qed

lemma collectionOfObjects_forEach_append:
  "collectionOfObjects_forEach m (xs @ ys) =
     collectionOfObjects_forEach (collectionOfObjects_forEach m xs) ys"
  by (simp add: collectionOfObjects_forEach_def)

lemma collectionOfObjects_run_result:
  assumes "props w (l_key l) = Some (Ref a)" "heap_object w a = Some m"
    "l_promise l < length (promises w)"
  shows "\<exists>w'. collectionOfObjects_run w l ns = Some w' \<and>
           heap_object w' a =
             Some (collectionOfObjects_forEach m (concat (map notification_changes ns))) \<and>
           resolve_calls (promises w' ! l_promise l) =
             resolve_calls (promises w ! l_promise l) + length (filter is_batch ns) \<and>
           (\<forall>s. promise_state w (l_promise l) = Some s \<and> s \<noteq> Pending \<longrightarrow>
                promise_state w' (l_promise l) = Some s)"
  using assms
proof (induction ns arbitrary: w m)
  case Nil
  then show ?case by (simp add: collectionOfObjects_forEach_def)
next
  case (Cons nt ns)
  show ?case
  proof (cases nt)
    case (Next evs)
    from collectionOfObjects_next_step[OF Cons.prems(1,2), of evs]
    obtain w1 where w1: "collectionOfObjects_next w l evs = Some w1"
      and p1: "props w1 = props w"
      and h1: "heap_object w1 a = Some (collectionOfObjects_forEach m evs)"
      and l1: "length (promises w1) = length (promises w)"
      and r1: "resolve_calls (promises w1 ! l_promise l) = Suc (resolve_calls (promises w ! l_promise l))"
      and s1: "promise_state w1 (l_promise l) =
                 map_option (\<lambda>s. settle s (Fulfilled (Ref (l_container l))))
                   (promise_state w (l_promise l))"
      using Cons.prems(3) by blast
    have "props w1 (l_key l) = Some (Ref a)" "l_promise l < length (promises w1)"
      using p1 l1 Cons.prems by simp_all
    from Cons.IH[OF this(1) h1 this(2)]
    obtain w' where w': "collectionOfObjects_run w1 l ns = Some w'"
      and h': "heap_object w' a =
                 Some (collectionOfObjects_forEach (collectionOfObjects_forEach m evs)
                   (concat (map notification_changes ns)))"
      and r': "resolve_calls (promises w' ! l_promise l) =
                 resolve_calls (promises w1 ! l_promise l) + length (filter is_batch ns)"
      and s': "\<forall>s. promise_state w1 (l_promise l) = Some s \<and> s \<noteq> Pending \<longrightarrow>
                 promise_state w' (l_promise l) = Some s"
      by blast
    have a: "collectionOfObjects_run w l (nt # ns) = Some w'"
      using Next w1 w' by (simp add: collectionOfObjects_notify_def)
    have b: "heap_object w' a =
               Some (collectionOfObjects_forEach m (concat (map notification_changes (nt # ns))))"
      using Next h' by (simp add: collectionOfObjects_forEach_append)
    have c: "resolve_calls (promises w' ! l_promise l) =
               resolve_calls (promises w ! l_promise l) + length (filter is_batch (nt # ns))"
      using Next r' r1 by simp
    have d: "\<forall>s. promise_state w (l_promise l) = Some s \<and> s \<noteq> Pending \<longrightarrow>
               promise_state w' (l_promise l) = Some s"
      using s' s1 by (auto simp: settle_settled)
    from a b c d show ?thesis by blast
  next
    case (Failure e)
    let ?w1 = "collectionOfObjects_error w l e"
    note st = collectionOfObjects_error_step[of w l e]
    have p1: "props ?w1 (l_key l) = Some (Ref a)"
      using st Cons.prems(1) by simp
    have h1: "heap_object ?w1 a = Some m"
      using st[of a] Cons.prems(2) by simp
    have l1: "l_promise l < length (promises ?w1)"
      using st Cons.prems(3) by simp
    have r1: "resolve_calls (promises ?w1 ! l_promise l) = resolve_calls (promises w ! l_promise l)"
      using st[of _ "l_promise l"] by simp
    have s1: "promise_state ?w1 (l_promise l) =
                map_option (\<lambda>s. settle s (Rejected (Error e))) (promise_state w (l_promise l))"
      using st by simp
    from Cons.IH[OF p1 h1 l1]
    obtain w' where w': "collectionOfObjects_run ?w1 l ns = Some w'"
      and h': "heap_object w' a =
                 Some (collectionOfObjects_forEach m (concat (map notification_changes ns)))"
      and r': "resolve_calls (promises w' ! l_promise l) =
                 resolve_calls (promises ?w1 ! l_promise l) + length (filter is_batch ns)"
      and s': "\<forall>s. promise_state ?w1 (l_promise l) = Some s \<and> s \<noteq> Pending \<longrightarrow>
                 promise_state w' (l_promise l) = Some s"
      by blast
    have a: "collectionOfObjects_run w l (nt # ns) = Some w'"
      using Failure w' by (simp add: collectionOfObjects_notify_def)
    have b: "heap_object w' a =
               Some (collectionOfObjects_forEach m (concat (map notification_changes (nt # ns))))"
      using Failure h' by simp
    have c: "resolve_calls (promises w' ! l_promise l) =
               resolve_calls (promises w ! l_promise l) + length (filter is_batch (nt # ns))"
      using Failure r' r1 by simp
    have d: "\<forall>s. promise_state w (l_promise l) = Some s \<and> s \<noteq> Pending \<longrightarrow>
               promise_state w' (l_promise l) = Some s"
      using s' s1 by (auto simp: settle_settled)
    from a b c d show ?thesis by blast
  qed
qed

lemma collectionOfObjects_next_first:
  assumes "props w (l_key l) = Some (Ref a)" "heap_object w a = Some m"
    "promise_state w (l_promise l) = Some Pending"
  shows "\<exists>w'. collectionOfObjects_next w l evs = Some w' \<and>
           promise_state w' (l_promise l) = Some (Fulfilled (Ref (l_container l))) \<and>
           heap_object w' a = Some (collectionOfObjects_forEach m evs)"
  using collectionOfObjects_next_step[OF assms(1,2), of evs] assms(3)
  by (auto simp: settle_Pending)

lemma collections_error_pending:
  "promise_state w (l_promise l) = Some Pending \<Longrightarrow>
   promise_state (collections_error w l e) (l_promise l) = Some (Rejected (Error e))"
  by (simp add: collections_error_def promise_state_reject_promise settle_Pending)

lemma collectionOfObjects_error_pending:
  "promise_state w (l_promise l) = Some Pending \<Longrightarrow>
   promise_state (collectionOfObjects_error w l e) (l_promise l) = Some (Rejected (Error e))"
  by (simp add: collectionOfObjects_error_def promise_state_reject_promise settle_Pending)

text \<open>
  Claim C7. For a collection-mode binding, \<^verbatim>\<open>resolve\<close> is called after every batch
  (after \<open>n\<close> batches it has been called \<open>n\<close> more times), and the container holds
  all the batches applied in order, whatever errors were delivered in between; yet
  the promise settles once: a settled promise keeps its state through any run of
  notifications. A pending promise is fulfilled by the first batch, with the
  reference to the container. After it is fulfilled, an error notification leaves it
  fulfilled with the same value, and the next batch still changes the container.
  The first four parts state this for the sequence listener. The next three state
  the same for the keyed listener, whose changes go to the object \<^verbatim>\<open>vm[key]\<close> refers
  to: the state after an error that follows a fulfilment; a run of notifications
  (\<^verbatim>\<open>resolve\<close> called once per batch, the object holding all the batches, a settled
  promise unchanged); the first batch of a pending promise. The last part is the
  other side of the single settlement: an error delivered to a pending promise, of
  either listener, rejects it with that error.
\<close>

theorem collection_promise_settles_once:
  fixes normalize_fn :: "'d doc_change \<Rightarrow> 'o \<Rightarrow> 'v" and w :: "('v, 'd, 'e) world"
  shows
  "(heap_array w (l_container l) = Some c \<and> l_promise l < length (promises w) \<longrightarrow>
      resolve_calls (promises (collections_run normalize_fn opts w l ns) ! l_promise l) =
        resolve_calls (promises w ! l_promise l) + length (filter is_batch ns) \<and>
      heap_array (collections_run normalize_fn opts w l ns) (l_container l) =
        Some (collections_forEach normalize_fn opts c (concat (map notification_changes ns)))) \<and>
   (promise_state w (l_promise l) = Some s \<and> s \<noteq> Pending \<longrightarrow>
      promise_state (collections_run normalize_fn opts w l ns) (l_promise l) = Some s) \<and>
   (heap_array w (l_container l) = Some c \<and> promise_state w (l_promise l) = Some Pending \<longrightarrow>
      promise_state (collections_next normalize_fn opts w l evs) (l_promise l) =
        Some (Fulfilled (Ref (l_container l)))) \<and>
   (heap_array w (l_container l) = Some c \<and> promise_state w (l_promise l) = Some (Fulfilled v) \<longrightarrow>
      promise_state (collections_error w l e) (l_promise l) = Some (Fulfilled v) \<and>
      promise_state (collections_next normalize_fn opts (collections_error w l e) l evs) (l_promise l) =
        Some (Fulfilled v) \<and>
      heap_array (collections_next normalize_fn opts (collections_error w l e) l evs) (l_container l) =
        Some (collections_forEach normalize_fn opts c evs)) \<and>
   (props w (l_key l) = Some (Ref a) \<and> heap_object w a = Some m \<and>
    promise_state w (l_promise l) = Some (Fulfilled v) \<longrightarrow>
      promise_state (collectionOfObjects_error w l e) (l_promise l) = Some (Fulfilled v) \<and>
      (\<exists>w'. collectionOfObjects_next (collectionOfObjects_error w l e) l evs = Some w' \<and>
            promise_state w' (l_promise l) = Some (Fulfilled v) \<and>
            heap_object w' a = Some (collectionOfObjects_forEach m evs))) \<and>
   (props w (l_key l) = Some (Ref a) \<and> heap_object w a = Some m \<and>
    l_promise l < length (promises w) \<longrightarrow>
      (\<exists>w'. collectionOfObjects_run w l ns = Some w' \<and>
            heap_object w' a =
              Some (collectionOfObjects_forEach m (concat (map notification_changes ns))) \<and>
            resolve_calls (promises w' ! l_promise l) =
              resolve_calls (promises w ! l_promise l) + length (filter is_batch ns) \<and>
            (\<forall>s. promise_state w (l_promise l) = Some s \<and> s \<noteq> Pending \<longrightarrow>
                 promise_state w' (l_promise l) = Some s))) \<and>
   (props w (l_key l) = Some (Ref a) \<and> heap_object w a = Some m \<and>
    promise_state w (l_promise l) = Some Pending \<longrightarrow>
      (\<exists>w'. collectionOfObjects_next w l evs = Some w' \<and>
            promise_state w' (l_promise l) = Some (Fulfilled (Ref (l_container l))) \<and>
            heap_object w' a = Some (collectionOfObjects_forEach m evs))) \<and>
   (promise_state w (l_promise l) = Some Pending \<longrightarrow>
      promise_state (collections_error w l e) (l_promise l) = Some (Rejected (Error e)) \<and>
      promise_state (collectionOfObjects_error w l e) (l_promise l) = Some (Rejected (Error e)))"
proof (intro conjI impI)
  assume h: "heap_array w (l_container l) = Some c \<and> l_promise l < length (promises w)"
  then show "resolve_calls (promises (collections_run normalize_fn opts w l ns) ! l_promise l) =
        resolve_calls (promises w ! l_promise l) + length (filter is_batch ns)"
    by (simp add: collections_run_resolve_calls)
  from h show "heap_array (collections_run normalize_fn opts w l ns) (l_container l) =
        Some (collections_forEach normalize_fn opts c (concat (map notification_changes ns)))"
    by (simp add: collections_run_container)
next
  assume "promise_state w (l_promise l) = Some s \<and> s \<noteq> Pending"
  then show "promise_state (collections_run normalize_fn opts w l ns) (l_promise l) = Some s"
    by (simp add: collections_run_settled)
next
  assume "heap_array w (l_container l) = Some c \<and> promise_state w (l_promise l) = Some Pending"
  then show "promise_state (collections_next normalize_fn opts w l evs) (l_promise l) =
        Some (Fulfilled (Ref (l_container l)))"
    by (simp add: collections_next_promise settle_Pending)
next
  assume h: "heap_array w (l_container l) = Some c \<and> promise_state w (l_promise l) = Some (Fulfilled v)"
  then show e: "promise_state (collections_error w l e) (l_promise l) = Some (Fulfilled v)"
    by (simp add: collections_error_settled)
  then show "promise_state (collections_next normalize_fn opts (collections_error w l e) l evs)
       (l_promise l) = Some (Fulfilled v)"
    by (simp add: collections_next_settled)
  from h show "heap_array (collections_next normalize_fn opts (collections_error w l e) l evs)
       (l_container l) = Some (collections_forEach normalize_fn opts c evs)"
    by (simp add: collections_next_container collections_error_container)
next
  assume h: "props w (l_key l) = Some (Ref a) \<and> heap_object w a = Some m \<and>
    promise_state w (l_promise l) = Some (Fulfilled v)"
  then show "promise_state (collectionOfObjects_error w l e) (l_promise l) = Some (Fulfilled v)"
    by (simp add: collectionOfObjects_error_settled)
  from h show "\<exists>w'. collectionOfObjects_next (collectionOfObjects_error w l e) l evs = Some w' \<and>
            promise_state w' (l_promise l) = Some (Fulfilled v) \<and>
            heap_object w' a = Some (collectionOfObjects_forEach m evs)"
    by (simp add: collectionOfObjects_next_after_error)
next
  assume "props w (l_key l) = Some (Ref a) \<and> heap_object w a = Some m \<and>
    l_promise l < length (promises w)"
  then show "\<exists>w'. collectionOfObjects_run w l ns = Some w' \<and>
            heap_object w' a =
              Some (collectionOfObjects_forEach m (concat (map notification_changes ns))) \<and>
            resolve_calls (promises w' ! l_promise l) =
              resolve_calls (promises w ! l_promise l) + length (filter is_batch ns) \<and>
            (\<forall>s. promise_state w (l_promise l) = Some s \<and> s \<noteq> Pending \<longrightarrow>
                 promise_state w' (l_promise l) = Some s)"
    by (simp add: collectionOfObjects_run_result)
next
  assume "props w (l_key l) = Some (Ref a) \<and> heap_object w a = Some m \<and>
    promise_state w (l_promise l) = Some Pending"
  then show "\<exists>w'. collectionOfObjects_next w l evs = Some w' \<and>
            promise_state w' (l_promise l) = Some (Fulfilled (Ref (l_container l))) \<and>
            heap_object w' a = Some (collectionOfObjects_forEach m evs)"
    by (simp add: collectionOfObjects_next_first)
next
  assume p: "promise_state w (l_promise l) = Some Pending"
  then show "promise_state (collections_error w l e) (l_promise l) = Some (Rejected (Error e))"
    by (rule collections_error_pending)
  from p show "promise_state (collectionOfObjects_error w l e) (l_promise l) =
      Some (Rejected (Error e))"
    by (rule collectionOfObjects_error_pending)
qed


lemma first_batch:
  "collections_next (\<lambda>s opts. doc_id (doc s)) ()
     \<lparr>firestore = Some [(''items'', \<lparr>path = ''items'', has_where = True\<rparr>)],
      props = [''items'' \<mapsto> Ref 0],
      heap = [ArrayObj []],
      promises = [new_promise],
      listeners = [\<lparr>l_strategy = Collections, l_key = ''items'', l_container = 0, l_promise = 0\<rparr>]\<rparr>
     \<lparr>l_strategy = Collections, l_key = ''items'', l_container = 0, l_promise = 0\<rparr>
     [\<lparr>change_type = ''added'', oldIndex = - 1, newIndex = 0,
       doc = \<lparr>doc_id = ''A'', doc_data = (), doc_exists = True\<rparr>\<rparr>] =
   (\<lparr>firestore = Some [(''items'', \<lparr>path = ''items'', has_where = True\<rparr>)],
      props = [''items'' \<mapsto> Ref 0],
      heap = [ArrayObj [''A'']],
      promises = [\<lparr>state = Fulfilled (Ref 0), resolve_calls = 1, reject_calls = 0\<rparr>],
      listeners = [\<lparr>l_strategy = Collections, l_key = ''items'', l_container = 0, l_promise = 0\<rparr>]\<rparr>
     :: (string, unit, string) world)"
  by (simp add: collections_next_def heap_array_def resolve_promise_def promise_resolve_def
      new_promise_def settle_def collections_forEach_def collections_change_added splice_insert)

text \<open>
  The theorem at the binding above after its first batch: an error, then a batch adding
  \<open>B\<close>; at a keyed binding holding \<open>u1\<close>: an error, then a batch adding \<open>u2\<close>;
  at the binding above before its first batch; at a single error after it; at the
  keyed binding again: an error and two batches, adding \<open>u2\<close> and \<open>u3\<close>; at a keyed
  binding before its first batch; and at an error delivered to each of the two
  bindings while its promise is pending.
\<close>

theorem collection_promise_settles_once_witness:
  "promise_state
     (collections_run (\<lambda>s opts. doc_id (doc s)) ()
        (\<lparr>firestore = Some [(''items'', \<lparr>path = ''items'', has_where = True\<rparr>)],
          props = [''items'' \<mapsto> Ref 0],
          heap = [ArrayObj [''A'']],
          promises = [\<lparr>state = Fulfilled (Ref 0), resolve_calls = 1, reject_calls = 0\<rparr>],
          listeners = [\<lparr>l_strategy = Collections, l_key = ''items'', l_container = 0, l_promise = 0\<rparr>]\<rparr>
          :: (string, unit, string) world)
        \<lparr>l_strategy = Collections, l_key = ''items'', l_container = 0, l_promise = 0\<rparr>
        [Failure ''denied'',
         Next [\<lparr>change_type = ''added'', oldIndex = - 1, newIndex = 1,
                doc = \<lparr>doc_id = ''B'', doc_data = (), doc_exists = True\<rparr>\<rparr>]]) 0 =
     Some (Fulfilled (Ref 0)) \<and>
   heap_array
     (collections_run (\<lambda>s opts. doc_id (doc s)) ()
        (\<lparr>firestore = Some [(''items'', \<lparr>path = ''items'', has_where = True\<rparr>)],
          props = [''items'' \<mapsto> Ref 0],
          heap = [ArrayObj [''A'']],
          promises = [\<lparr>state = Fulfilled (Ref 0), resolve_calls = 1, reject_calls = 0\<rparr>],
          listeners = [\<lparr>l_strategy = Collections, l_key = ''items'', l_container = 0, l_promise = 0\<rparr>]\<rparr>
          :: (string, unit, string) world)
        \<lparr>l_strategy = Collections, l_key = ''items'', l_container = 0, l_promise = 0\<rparr>
        [Failure ''denied'',
         Next [\<lparr>change_type = ''added'', oldIndex = - 1, newIndex = 1,
                doc = \<lparr>doc_id = ''B'', doc_data = (), doc_exists = True\<rparr>\<rparr>]]) 0 =
     Some [''A'', ''B''] \<and>
   (\<exists>w'. collectionOfObjects_next
           (collectionOfObjects_error
              (\<lparr>firestore = Some [(''users'', \<lparr>path = ''users'', has_where = True\<rparr>)],
                props = [''users'' \<mapsto> Ref 0],
                heap = [PlainObj [''u1'' \<mapsto> ()]],
                promises = [\<lparr>state = Fulfilled (Ref 0), resolve_calls = 1, reject_calls = 0\<rparr>],
                listeners = [\<lparr>l_strategy = CollectionOfObjects, l_key = ''users'',
                               l_container = 0, l_promise = 0\<rparr>]\<rparr> :: (string, unit, string) world)
              \<lparr>l_strategy = CollectionOfObjects, l_key = ''users'', l_container = 0, l_promise = 0\<rparr>
              ''denied'')
           \<lparr>l_strategy = CollectionOfObjects, l_key = ''users'', l_container = 0, l_promise = 0\<rparr>
           [\<lparr>change_type = ''added'', oldIndex = - 1, newIndex = 1,
             doc = \<lparr>doc_id = ''u2'', doc_data = (), doc_exists = True\<rparr>\<rparr>] = Some w' \<and>
         promise_state w' 0 = Some (Fulfilled (Ref 0)) \<and>
         heap_object w' 0 = Some [''u1'' \<mapsto> (), ''u2'' \<mapsto> ()]) \<and>
   promise_state
     (collections_next (\<lambda>s opts. doc_id (doc s)) ()
        (\<lparr>firestore = Some [(''items'', \<lparr>path = ''items'', has_where = True\<rparr>)],
          props = [''items'' \<mapsto> Ref 0],
          heap = [ArrayObj []],
          promises = [new_promise],
          listeners = [\<lparr>l_strategy = Collections, l_key = ''items'', l_container = 0, l_promise = 0\<rparr>]\<rparr>
          :: (string, unit, string) world)
        \<lparr>l_strategy = Collections, l_key = ''items'', l_container = 0, l_promise = 0\<rparr>
        [\<lparr>change_type = ''added'', oldIndex = - 1, newIndex = 0,
          doc = \<lparr>doc_id = ''A'', doc_data = (), doc_exists = True\<rparr>\<rparr>]) 0 =
     Some (Fulfilled (Ref 0)) \<and>
   promise_state
     (collections_error
        (\<lparr>firestore = Some [(''items'', \<lparr>path = ''items'', has_where = True\<rparr>)],
          props = [''items'' \<mapsto> Ref 0],
          heap = [ArrayObj [''A'']],
          promises = [\<lparr>state = Fulfilled (Ref 0), resolve_calls = 1, reject_calls = 0\<rparr>],
          listeners = [\<lparr>l_strategy = Collections, l_key = ''items'', l_container = 0, l_promise = 0\<rparr>]\<rparr>
          :: (string, unit, string) world)
        \<lparr>l_strategy = Collections, l_key = ''items'', l_container = 0, l_promise = 0\<rparr>
        ''denied'') 0 =
     Some (Fulfilled (Ref 0)) \<and>
   (\<exists>w'. collectionOfObjects_run
          (\<lparr>firestore = Some [(''users'', \<lparr>path = ''users'', has_where = True\<rparr>)],
           props = [''users'' \<mapsto> Ref 0],
           heap = [PlainObj [''u1'' \<mapsto> ()]],
           promises = [\<lparr>state = Fulfilled (Ref 0), resolve_calls = 1, reject_calls = 0\<rparr>],
           listeners = [\<lparr>l_strategy = CollectionOfObjects, l_key = ''users'',
                          l_container = 0, l_promise = 0\<rparr>]\<rparr> :: (string, unit, string) world)
          \<lparr>l_strategy = CollectionOfObjects, l_key = ''users'', l_container = 0, l_promise = 0\<rparr>
          [Failure ''denied'',
           Next [\<lparr>change_type = ''added'', oldIndex = - 1, newIndex = 1,
             doc = \<lparr>doc_id = ''u2'', doc_data = (), doc_exists = True\<rparr>\<rparr>],
           Next [\<lparr>change_type = ''added'', oldIndex = - 1, newIndex = 2,
             doc = \<lparr>doc_id = ''u3'', doc_data = (), doc_exists = True\<rparr>\<rparr>]] = Some w' \<and>
         heap_object w' 0 = Some [''u1'' \<mapsto> (), ''u2'' \<mapsto> (), ''u3'' \<mapsto> ()] \<and>
         resolve_calls (promises w' ! 0) = 3 \<and>
         promise_state w' 0 = Some (Fulfilled (Ref 0))) \<and>
   (\<exists>w'. collectionOfObjects_next
          (\<lparr>firestore = Some [(''users'', \<lparr>path = ''users'', has_where = True\<rparr>)],
           props = [''users'' \<mapsto> Ref 0],
           heap = [PlainObj Map.empty],
           promises = [new_promise],
           listeners = [\<lparr>l_strategy = CollectionOfObjects, l_key = ''users'',
                          l_container = 0, l_promise = 0\<rparr>]\<rparr> :: (string, unit, string) world)
          \<lparr>l_strategy = CollectionOfObjects, l_key = ''users'', l_container = 0, l_promise = 0\<rparr>
          [\<lparr>change_type = ''added'', oldIndex = - 1, newIndex = 1,
             doc = \<lparr>doc_id = ''u2'', doc_data = (), doc_exists = True\<rparr>\<rparr>] = Some w' \<and>
         promise_state w' 0 = Some (Fulfilled (Ref 0)) \<and>
         heap_object w' 0 = Some [''u2'' \<mapsto> ()]) \<and>
   promise_state
     (collections_error
        (\<lparr>firestore = Some [(''items'', \<lparr>path = ''items'', has_where = True\<rparr>)],
          props = [''items'' \<mapsto> Ref 0],
          heap = [ArrayObj []],
          promises = [new_promise],
          listeners = [\<lparr>l_strategy = Collections, l_key = ''items'', l_container = 0, l_promise = 0\<rparr>]\<rparr>
          :: (string, unit, string) world)
        \<lparr>l_strategy = Collections, l_key = ''items'', l_container = 0, l_promise = 0\<rparr>
        ''denied'') 0 =
     Some (Rejected (Error ''denied'')) \<and>
   promise_state
     (collectionOfObjects_error
        (\<lparr>firestore = Some [(''users'', \<lparr>path = ''users'', has_where = True\<rparr>)],
           props = [''users'' \<mapsto> Ref 0],
           heap = [PlainObj Map.empty],
           promises = [new_promise],
           listeners = [\<lparr>l_strategy = CollectionOfObjects, l_key = ''users'',
                          l_container = 0, l_promise = 0\<rparr>]\<rparr> :: (string, unit, string) world)
        \<lparr>l_strategy = CollectionOfObjects, l_key = ''users'', l_container = 0, l_promise = 0\<rparr>
        ''denied'') 0 =
     Some (Rejected (Error ''denied''))"
proof -
  let ?n = "\<lambda>(s :: unit doc_change) (opts :: unit). doc_id (doc s)"
  let ?l = "\<lparr>l_strategy = Collections, l_key = ''items'', l_container = 0, l_promise = 0\<rparr>"
  let ?w = "\<lparr>firestore = Some [(''items'', \<lparr>path = ''items'', has_where = True\<rparr>)],
          props = [''items'' \<mapsto> Ref 0],
          heap = [ArrayObj [''A'']],
          promises = [\<lparr>state = Fulfilled (Ref 0), resolve_calls = 1, reject_calls = 0\<rparr>],
          listeners = [?l]\<rparr> :: (string, unit, string) world"
  let ?b = "\<lparr>change_type = ''added'', oldIndex = - 1, newIndex = 1,
                doc = \<lparr>doc_id = ''B'', doc_data = (), doc_exists = True\<rparr>\<rparr>"
  let ?ns = "[Failure ''denied'', Next [?b]]"
  have h1: "heap_array ?w (l_container ?l) = Some [''A''] \<and> l_promise ?l < length (promises ?w)"
    by (simp add: heap_array_def)
  have h2: "promise_state ?w (l_promise ?l) = Some (Fulfilled (Ref 0)) \<and> Fulfilled (Ref 0) \<noteq> Pending"
    by (simp add: promise_state_def)
  note t = collection_promise_settles_once
      [where w = ?w and l = ?l and normalize_fn = ?n and opts = "()" and ns = ?ns
         and c = "[''A'']" and s = "Fulfilled (Ref 0)"]
  have p: "promise_state (collections_run ?n () ?w ?l ?ns) (l_promise ?l) = Some (Fulfilled (Ref 0))"
    using t[THEN conjunct2, THEN conjunct1, THEN mp, OF h2] .
  have "heap_array (collections_run ?n () ?w ?l ?ns) (l_container ?l) =
          Some (collections_forEach ?n () [''A''] (concat (map notification_changes ?ns)))"
    using t[THEN conjunct1, THEN mp, OF h1] by (rule conjunct2)
  then have c: "heap_array (collections_run ?n () ?w ?l ?ns) (l_container ?l) = Some [''A'', ''B'']"
    by (simp add: collections_forEach_def collections_change_added splice_insert)
  let ?lk = "\<lparr>l_strategy = CollectionOfObjects, l_key = ''users'', l_container = 0, l_promise = 0\<rparr>"
  let ?wk = "\<lparr>firestore = Some [(''users'', \<lparr>path = ''users'', has_where = True\<rparr>)],
                props = [''users'' \<mapsto> Ref 0],
                heap = [PlainObj [''u1'' \<mapsto> ()]],
                promises = [\<lparr>state = Fulfilled (Ref 0), resolve_calls = 1, reject_calls = 0\<rparr>],
                listeners = [?lk]\<rparr> :: (string, unit, string) world"
  let ?u = "\<lparr>change_type = ''added'', oldIndex = - 1, newIndex = 1,
             doc = \<lparr>doc_id = ''u2'', doc_data = (), doc_exists = True\<rparr>\<rparr>"
  have h3: "props ?wk (l_key ?lk) = Some (Ref 0) \<and> heap_object ?wk 0 = Some [''u1'' \<mapsto> ()] \<and>
            promise_state ?wk (l_promise ?lk) = Some (Fulfilled (Ref 0))"
    by (simp add: heap_object_def promise_state_def)
  have "\<exists>w'. collectionOfObjects_next (collectionOfObjects_error ?wk ?lk ''denied'') ?lk [?u] = Some w' \<and>
            promise_state w' (l_promise ?lk) = Some (Fulfilled (Ref 0)) \<and>
            heap_object w' 0 = Some (collectionOfObjects_forEach [''u1'' \<mapsto> ()] [?u])"
    using collection_promise_settles_once
      [where w = ?wk and l = ?lk and a = 0 and m = "[''u1'' \<mapsto> ()]" and v = "Ref 0"
         and e = "''denied''" and evs = "[?u]" and normalize_fn = ?n,
       THEN conjunct2, THEN conjunct2, THEN conjunct2, THEN conjunct2, THEN conjunct1,
       THEN mp, OF h3]
    by (rule conjunct2)
  then have k: "\<exists>w'. collectionOfObjects_next (collectionOfObjects_error ?wk ?lk ''denied'') ?lk [?u] = Some w' \<and>
            promise_state w' 0 = Some (Fulfilled (Ref 0)) \<and>
            heap_object w' 0 = Some [''u1'' \<mapsto> (), ''u2'' \<mapsto> ()]"
    by (simp add: collectionOfObjects_forEach_def collectionOfObjects_change_set)
  let ?wp = "\<lparr>firestore = Some [(''items'', \<lparr>path = ''items'', has_where = True\<rparr>)],
          props = [''items'' \<mapsto> Ref 0],
          heap = [ArrayObj []],
          promises = [new_promise],
          listeners = [?l]\<rparr> :: (string, unit, string) world"
  let ?a = "\<lparr>change_type = ''added'', oldIndex = - 1, newIndex = 0,
          doc = \<lparr>doc_id = ''A'', doc_data = (), doc_exists = True\<rparr>\<rparr>"
  have h4: "heap_array ?wp (l_container ?l) = Some [] \<and> promise_state ?wp (l_promise ?l) = Some Pending"
    by (simp add: heap_array_def promise_state_def new_promise_def)
  have f: "promise_state (collections_next ?n () ?wp ?l [?a]) (l_promise ?l) =
             Some (Fulfilled (Ref (l_container ?l)))"
    using collection_promise_settles_once
      [where w = ?wp and l = ?l and c = "[]" and normalize_fn = ?n and opts = "()" and evs = "[?a]",
       THEN conjunct2, THEN conjunct2, THEN conjunct1, THEN mp, OF h4] .
  have h5: "heap_array ?w (l_container ?l) = Some [''A''] \<and>
            promise_state ?w (l_promise ?l) = Some (Fulfilled (Ref 0))"
    by (simp add: heap_array_def promise_state_def)
  have e: "promise_state (collections_error ?w ?l ''denied'') (l_promise ?l) = Some (Fulfilled (Ref 0))"
    using collection_promise_settles_once
      [where w = ?w and l = ?l and c = "[''A'']" and v = "Ref 0" and e = "''denied''"
         and normalize_fn = ?n and opts = "()",
       THEN conjunct2, THEN conjunct2, THEN conjunct2, THEN conjunct1, THEN mp, OF h5]
    by (rule conjunct1)
  let ?v = "\<lparr>change_type = ''added'', oldIndex = - 1, newIndex = 2,
             doc = \<lparr>doc_id = ''u3'', doc_data = (), doc_exists = True\<rparr>\<rparr>"
  let ?nk = "[Failure ''denied'', Next [?u], Next [?v]]"
  have h6: "props ?wk (l_key ?lk) = Some (Ref 0) \<and> heap_object ?wk 0 = Some [''u1'' \<mapsto> ()] \<and>
            l_promise ?lk < length (promises ?wk)"
    by (simp add: heap_object_def)
  have sk: "promise_state ?wk (l_promise ?lk) = Some (Fulfilled (Ref 0))"
    by (simp add: promise_state_def)
  have "\<exists>w'. collectionOfObjects_run ?wk ?lk ?nk = Some w' \<and>
            heap_object w' 0 =
              Some (collectionOfObjects_forEach [''u1'' \<mapsto> ()]
                (concat (map notification_changes ?nk))) \<and>
            resolve_calls (promises w' ! l_promise ?lk) =
              resolve_calls (promises ?wk ! l_promise ?lk) + length (filter is_batch ?nk) \<and>
            (\<forall>s. promise_state ?wk (l_promise ?lk) = Some s \<and> s \<noteq> Pending \<longrightarrow>
                 promise_state w' (l_promise ?lk) = Some s)"
    using collection_promise_settles_once
      [where w = ?wk and l = ?lk and a = 0 and m = "[''u1'' \<mapsto> ()]" and ns = ?nk
         and normalize_fn = ?n,
       THEN conjunct2, THEN conjunct2, THEN conjunct2, THEN conjunct2, THEN conjunct2,
       THEN conjunct1, THEN mp, OF h6] .
  then obtain wr where wr: "collectionOfObjects_run ?wk ?lk ?nk = Some wr"
    and hr: "heap_object wr 0 =
              Some (collectionOfObjects_forEach [''u1'' \<mapsto> ()]
                (concat (map notification_changes ?nk)))"
    and rr: "resolve_calls (promises wr ! l_promise ?lk) =
              resolve_calls (promises ?wk ! l_promise ?lk) + length (filter is_batch ?nk)"
    and sr: "\<forall>s. promise_state ?wk (l_promise ?lk) = Some s \<and> s \<noteq> Pending \<longrightarrow>
                 promise_state wr (l_promise ?lk) = Some s"
    by blast
  have hr': "heap_object wr 0 = Some [''u1'' \<mapsto> (), ''u2'' \<mapsto> (), ''u3'' \<mapsto> ()]"
    using hr by (simp add: collectionOfObjects_forEach_def collectionOfObjects_change_set)
  have rr': "resolve_calls (promises wr ! 0) = 3"
    using rr by simp
  have sr': "promise_state wr 0 = Some (Fulfilled (Ref 0))"
    using sr sk by simp
  from wr hr' rr' sr'
  have kr: "\<exists>w'. collectionOfObjects_run ?wk ?lk ?nk = Some w' \<and>
         heap_object w' 0 = Some [''u1'' \<mapsto> (), ''u2'' \<mapsto> (), ''u3'' \<mapsto> ()] \<and>
         resolve_calls (promises w' ! 0) = 3 \<and>
         promise_state w' 0 = Some (Fulfilled (Ref 0))"
    by blast
  let ?wq = "\<lparr>firestore = Some [(''users'', \<lparr>path = ''users'', has_where = True\<rparr>)],
           props = [''users'' \<mapsto> Ref 0],
           heap = [PlainObj Map.empty],
           promises = [new_promise],
           listeners = [?lk]\<rparr> :: (string, unit, string) world"
  have h7: "props ?wq (l_key ?lk) = Some (Ref 0) \<and> heap_object ?wq 0 = Some Map.empty \<and>
            promise_state ?wq (l_promise ?lk) = Some Pending"
    by (simp add: heap_object_def promise_state_def new_promise_def)
  have "\<exists>w'. collectionOfObjects_next ?wq ?lk [?u] = Some w' \<and>
            promise_state w' (l_promise ?lk) = Some (Fulfilled (Ref (l_container ?lk))) \<and>
            heap_object w' 0 = Some (collectionOfObjects_forEach Map.empty [?u])"
    using collection_promise_settles_once
      [where w = ?wq and l = ?lk and a = 0 and m = "Map.empty" and evs = "[?u]"
         and normalize_fn = ?n,
       THEN conjunct2, THEN conjunct2, THEN conjunct2, THEN conjunct2, THEN conjunct2,
       THEN conjunct2, THEN conjunct1, THEN mp, OF h7] .
  then have kf: "\<exists>w'. collectionOfObjects_next ?wq ?lk [?u] = Some w' \<and>
            promise_state w' 0 = Some (Fulfilled (Ref 0)) \<and>
            heap_object w' 0 = Some [''u2'' \<mapsto> ()]"
    by (simp add: collectionOfObjects_forEach_def collectionOfObjects_change_set)
  have h8: "promise_state ?wp (l_promise ?l) = Some Pending"
    by (simp add: promise_state_def new_promise_def)
  have ep: "promise_state (collections_error ?wp ?l ''denied'') (l_promise ?l) =
              Some (Rejected (Error ''denied''))"
    using collection_promise_settles_once
      [where w = ?wp and l = ?l and e = "''denied''" and normalize_fn = ?n,
       THEN conjunct2, THEN conjunct2, THEN conjunct2, THEN conjunct2, THEN conjunct2,
       THEN conjunct2, THEN conjunct2, THEN mp, OF h8]
    by (rule conjunct1)
  have h9: "promise_state ?wq (l_promise ?lk) = Some Pending"
    by (simp add: promise_state_def new_promise_def)
  have eq: "promise_state (collectionOfObjects_error ?wq ?lk ''denied'') (l_promise ?lk) =
              Some (Rejected (Error ''denied''))"
    using collection_promise_settles_once
      [where w = ?wq and l = ?lk and e = "''denied''" and normalize_fn = ?n,
       THEN conjunct2, THEN conjunct2, THEN conjunct2, THEN conjunct2, THEN conjunct2,
       THEN conjunct2, THEN conjunct2, THEN mp, OF h9]
    by (rule conjunct2)
  have ep': "promise_state (collections_error ?wp ?l ''denied'') 0 = Some (Rejected (Error ''denied''))"
    using ep by simp
  have eq': "promise_state (collectionOfObjects_error ?wq ?lk ''denied'') 0 =
              Some (Rejected (Error ''denied''))"
    using eq by simp
  have p': "promise_state (collections_run ?n () ?w ?l ?ns) 0 = Some (Fulfilled (Ref 0))"
    using p by simp
  have c': "heap_array (collections_run ?n () ?w ?l ?ns) 0 = Some [''A'', ''B'']"
    using c by simp
  have f': "promise_state (collections_next ?n () ?wp ?l [?a]) 0 = Some (Fulfilled (Ref 0))"
    using f by simp
  have e': "promise_state (collections_error ?w ?l ''denied'') 0 = Some (Fulfilled (Ref 0))"
    using e by simp
  from p' c' k f' e' kr kf ep' eq' show ?thesis
    by (intro conjI)
qed

subsection \<open>Determinism of a batch\<close>

text \<open>
  Claim C8. Applying a batch of changes to a container array is deterministic: the
  container the listener leaves is a function of the container it found and of the
  changes in their order of delivery (each change is applied to what the previous one
  left). Two runs from the same container give the same container, also when the
  rest of the state differs (the promise, the side table, other objects on the heap,
  the address of the container); the same holds for a run of notifications.
\<close>

theorem sequence_batch_deterministic:
  fixes normalize_fn :: "'d doc_change \<Rightarrow> 'o \<Rightarrow> 'v"
    and w w' :: "('v, 'd, 'e) world"
  shows
  "(heap_array w (l_container l) = Some c \<and> heap_array w' (l_container l') = Some c \<longrightarrow>
      heap_array (collections_next normalize_fn opts w l evs) (l_container l) =
        Some (collections_forEach normalize_fn opts c evs) \<and>
      heap_array (collections_next normalize_fn opts w' l' evs) (l_container l') =
        heap_array (collections_next normalize_fn opts w l evs) (l_container l) \<and>
      heap_array (collections_run normalize_fn opts w' l' ns) (l_container l') =
        heap_array (collections_run normalize_fn opts w l ns) (l_container l)) \<and>
   collections_forEach normalize_fn opts c [] = c \<and>
   collections_forEach normalize_fn opts c (evs @ [ev]) =
     collections_change normalize_fn opts (collections_forEach normalize_fn opts c evs) ev"
proof (intro conjI impI)
  assume h: "heap_array w (l_container l) = Some c \<and> heap_array w' (l_container l') = Some c"
  then show "heap_array (collections_next normalize_fn opts w l evs) (l_container l) =
        Some (collections_forEach normalize_fn opts c evs)"
    by (simp add: collections_next_container)
  from h show "heap_array (collections_next normalize_fn opts w' l' evs) (l_container l') =
        heap_array (collections_next normalize_fn opts w l evs) (l_container l)"
    by (simp add: collections_next_container)
  from h show "heap_array (collections_run normalize_fn opts w' l' ns) (l_container l') =
        heap_array (collections_run normalize_fn opts w l ns) (l_container l)"
    by (simp add: collections_run_container)
next
  show "collections_forEach normalize_fn opts c [] = c"
    by (simp add: collections_forEach_def)
  show "collections_forEach normalize_fn opts c (evs @ [ev]) =
     collections_change normalize_fn opts (collections_forEach normalize_fn opts c evs) ev"
    by (simp add: collections_forEach_def)
qed

text \<open>
  The theorem at two worlds that share the container \<open>[A, B]\<close> and nothing else, and
  a batch that removes index 0, adds \<open>C\<close> at index 1 and moves index 0 to index 1.
\<close>

theorem sequence_batch_deterministic_witness:
  "heap_array
     (collections_next (\<lambda>s opts. doc_id (doc s)) ()
        (\<lparr>firestore = Some [(''items'', \<lparr>path = ''items'', has_where = True\<rparr>)],
          props = [''items'' \<mapsto> Ref 0],
          heap = [ArrayObj [''A'', ''B'']],
          promises = [\<lparr>state = Fulfilled (Ref 0), resolve_calls = 1, reject_calls = 0\<rparr>],
          listeners = [\<lparr>l_strategy = Collections, l_key = ''items'', l_container = 0, l_promise = 0\<rparr>]\<rparr>
          :: (string, unit, string) world)
        \<lparr>l_strategy = Collections, l_key = ''items'', l_container = 0, l_promise = 0\<rparr>
        [\<lparr>change_type = ''removed'', oldIndex = 0, newIndex = - 1,
          doc = \<lparr>doc_id = ''A'', doc_data = (), doc_exists = True\<rparr>\<rparr>,
         \<lparr>change_type = ''added'', oldIndex = - 1, newIndex = 1,
          doc = \<lparr>doc_id = ''C'', doc_data = (), doc_exists = True\<rparr>\<rparr>,
         \<lparr>change_type = ''modified'', oldIndex = 0, newIndex = 1,
          doc = \<lparr>doc_id = ''B2'', doc_data = (), doc_exists = True\<rparr>\<rparr>]) 0 =
     Some [''C'', ''B2''] \<and>
   heap_array
     (collections_next (\<lambda>s opts. doc_id (doc s)) ()
        (\<lparr>firestore = None,
          props = Map.empty,
          heap = [PlainObj Map.empty, ArrayObj [''A'', ''B'']],
          promises = [\<lparr>state = Rejected (Error ''denied''), resolve_calls = 0, reject_calls = 1\<rparr>],
          listeners = []\<rparr> :: (string, unit, string) world)
        \<lparr>l_strategy = Collections, l_key = ''other'', l_container = 1, l_promise = 0\<rparr>
        [\<lparr>change_type = ''removed'', oldIndex = 0, newIndex = - 1,
          doc = \<lparr>doc_id = ''A'', doc_data = (), doc_exists = True\<rparr>\<rparr>,
         \<lparr>change_type = ''added'', oldIndex = - 1, newIndex = 1,
          doc = \<lparr>doc_id = ''C'', doc_data = (), doc_exists = True\<rparr>\<rparr>,
         \<lparr>change_type = ''modified'', oldIndex = 0, newIndex = 1,
          doc = \<lparr>doc_id = ''B2'', doc_data = (), doc_exists = True\<rparr>\<rparr>]) 1 =
     Some [''C'', ''B2'']"
proof -
  let ?n = "\<lambda>(s :: unit doc_change) (opts :: unit). doc_id (doc s)"
  let ?l = "\<lparr>l_strategy = Collections, l_key = ''items'', l_container = 0, l_promise = 0\<rparr>"
  let ?l' = "\<lparr>l_strategy = Collections, l_key = ''other'', l_container = 1, l_promise = 0\<rparr>"
  let ?w = "\<lparr>firestore = Some [(''items'', \<lparr>path = ''items'', has_where = True\<rparr>)],
          props = [''items'' \<mapsto> Ref 0],
          heap = [ArrayObj [''A'', ''B'']],
          promises = [\<lparr>state = Fulfilled (Ref 0), resolve_calls = 1, reject_calls = 0\<rparr>],
          listeners = [?l]\<rparr> :: (string, unit, string) world"
  let ?w' = "\<lparr>firestore = None,
          props = Map.empty,
          heap = [PlainObj Map.empty, ArrayObj [''A'', ''B'']],
          promises = [\<lparr>state = Rejected (Error ''denied''), resolve_calls = 0, reject_calls = 1\<rparr>],
          listeners = []\<rparr> :: (string, unit, string) world"
  let ?evs = "[\<lparr>change_type = ''removed'', oldIndex = 0, newIndex = - 1,
          doc = \<lparr>doc_id = ''A'', doc_data = (), doc_exists = True\<rparr>\<rparr>,
         \<lparr>change_type = ''added'', oldIndex = - 1, newIndex = 1,
          doc = \<lparr>doc_id = ''C'', doc_data = (), doc_exists = True\<rparr>\<rparr>,
         \<lparr>change_type = ''modified'', oldIndex = 0, newIndex = 1,
          doc = \<lparr>doc_id = ''B2'', doc_data = (), doc_exists = True\<rparr>\<rparr>]"
  have h: "heap_array ?w (l_container ?l) = Some [''A'', ''B''] \<and>
           heap_array ?w' (l_container ?l') = Some [''A'', ''B'']"
    by (simp add: heap_array_def)
  note t = sequence_batch_deterministic
      [where w = ?w and w' = ?w' and l = ?l and l' = ?l' and c = "[''A'', ''B'']"
         and normalize_fn = ?n and opts = "()" and evs = ?evs,
       THEN conjunct1, THEN mp, OF h]
  have "heap_array (collections_next ?n () ?w ?l ?evs) (l_container ?l) =
          Some (collections_forEach ?n () [''A'', ''B''] ?evs)"
    using t by (rule conjunct1)
  then have 1: "heap_array (collections_next ?n () ?w ?l ?evs) (l_container ?l) = Some [''C'', ''B2'']"
    by (simp add: collections_forEach_def collections_change_added collections_change_removed
        collections_change_modified splice_insert splice_delete)
  have "heap_array (collections_next ?n () ?w' ?l' ?evs) (l_container ?l') =
        heap_array (collections_next ?n () ?w ?l ?evs) (l_container ?l)"
    using t[THEN conjunct2] by (rule conjunct1)
  with 1 have 2: "heap_array (collections_next ?n () ?w' ?l' ?evs) (l_container ?l') = Some [''C'', ''B2'']"
    by simp
  from 1 2 show ?thesis by simp
qed

subsection \<open>\<^verbatim>\<open>$unbind\<close> and teardown\<close>

lemma unbind_Some:
  "firestore w = Some table \<Longrightarrow>
   unbind w key = Inr (w\<lparr>firestore := Some (AList.delete key table)\<rparr>)"
  by (simp add: unbind_def)

lemma unbind_None: "firestore w = None \<Longrightarrow> unbind w key = Inl TypeError"
  by (simp add: unbind_def)

lemma unbind_frame:
  "unbind w key = Inr w' \<Longrightarrow>
   listeners w' = listeners w \<and> heap w' = heap w \<and> props w' = props w \<and> promises w' = promises w"
  by (auto simp: unbind_def split: option.splits)

lemma unbind_keys_result:
  "firestore w = Some table \<Longrightarrow>
   \<exists>table'. unbind_keys w keys = Inr (w\<lparr>firestore := Some table'\<rparr>)"
proof (induction keys arbitrary: w table)
  case Nil
  then have "w = w\<lparr>firestore := Some table\<rparr>" by simp
  then show ?case by (metis unbind_keys.simps(1))
next
  case (Cons key keys)
  show ?case
  proof (cases "map_of table key \<noteq> None")
    case True
    let ?w = "w\<lparr>firestore := Some (AList.delete key table)\<rparr>"
    have "firestore ?w = Some (AList.delete key table)" by simp
    from Cons.IH[OF this] obtain table' where "unbind_keys ?w keys = Inr (?w\<lparr>firestore := Some table'\<rparr>)"
      by blast
    then have "unbind_keys w (key # keys) = Inr (w\<lparr>firestore := Some table'\<rparr>)"
      using Cons.prems True by (simp add: unbind_Some)
    then show ?thesis by blast
  next
    case False
    from Cons.IH[OF Cons.prems] obtain table' where "unbind_keys w keys = Inr (w\<lparr>firestore := Some table'\<rparr>)"
      by blast
    then have "unbind_keys w (key # keys) = Inr (w\<lparr>firestore := Some table'\<rparr>)"
      using Cons.prems False by simp
    then show ?thesis by blast
  qed
qed

lemma beforeDestroy_result: "beforeDestroy w = Inr (w\<lparr>firestore := None\<rparr>)"
proof (cases "firestore w")
  case None
  then have "w\<lparr>firestore := None\<rparr> = w" by simp
  with None show ?thesis by (simp add: beforeDestroy_def)
next
  case (Some table)
  from unbind_keys_result[OF Some, of "own_keys table"]
  obtain table' where "unbind_keys w (own_keys table) = Inr (w\<lparr>firestore := Some table'\<rparr>)"
    by blast
  with Some show ?thesis by (simp add: beforeDestroy_def)
qed

text \<open>
  Claim C3, as the code has it. While the owner has a side table, \<^verbatim>\<open>$unbind\<close> removes
  the entry for the key and leaves every other entry; it changes nothing else, and
  a second call on the same key returns the same state with no error. The code
  keeps no subscription handle: neither \<^verbatim>\<open>$unbind\<close> nor the teardown removes a
  listener, so no subscription is released, once or twice. The teardown always
  succeeds and sets the side table to \<^verbatim>\<open>null\<close>.
\<close>

theorem unbind_removes_entry_only:
  fixes w :: "('v, 'd, 'e) world"
  shows
  "(firestore w = Some table \<longrightarrow>
      unbind w key = Inr (w\<lparr>firestore := Some (AList.delete key table)\<rparr>) \<and>
      map_of (AList.delete key table) key = None \<and>
      (\<forall>k. k \<noteq> key \<longrightarrow> map_of (AList.delete key table) k = map_of table k) \<and>
      listeners (w\<lparr>firestore := Some (AList.delete key table)\<rparr>) = listeners w \<and>
      unbind (w\<lparr>firestore := Some (AList.delete key table)\<rparr>) key =
        Inr (w\<lparr>firestore := Some (AList.delete key table)\<rparr>)) \<and>
   beforeDestroy w = Inr (w\<lparr>firestore := None\<rparr>) \<and>
   listeners (w\<lparr>firestore := None\<rparr>) = listeners w"
  by (simp add: unbind_Some beforeDestroy_result AList.delete_conv' AList.delete_idem)


text \<open>
  The theorem at the owner after \<^verbatim>\<open>$binding('items', query)\<close>: the first call empties
  the side table, the second changes nothing, and the listener stays registered.
\<close>

theorem unbind_removes_entry_only_witness:
  "unbind
     (\<lparr>firestore = Some [(''items'', \<lparr>path = ''items'', has_where = True\<rparr>)],
       props = [''items'' \<mapsto> Ref 0],
       heap = [ArrayObj []],
       promises = [new_promise],
       listeners = [\<lparr>l_strategy = Collections, l_key = ''items'', l_container = 0, l_promise = 0\<rparr>]\<rparr>
       :: (string, unit, string) world) ''items'' =
     Inr \<lparr>firestore = Some [],
          props = [''items'' \<mapsto> Ref 0],
          heap = [ArrayObj []],
          promises = [new_promise],
          listeners = [\<lparr>l_strategy = Collections, l_key = ''items'', l_container = 0, l_promise = 0\<rparr>]\<rparr> \<and>
   unbind
     (\<lparr>firestore = Some [],
       props = [''items'' \<mapsto> Ref 0],
       heap = [ArrayObj []],
       promises = [new_promise],
       listeners = [\<lparr>l_strategy = Collections, l_key = ''items'', l_container = 0, l_promise = 0\<rparr>]\<rparr>
       :: (string, unit, string) world) ''items'' =
     Inr \<lparr>firestore = Some [],
          props = [''items'' \<mapsto> Ref 0],
          heap = [ArrayObj []],
          promises = [new_promise],
          listeners = [\<lparr>l_strategy = Collections, l_key = ''items'', l_container = 0, l_promise = 0\<rparr>]\<rparr>"
proof -
  let ?l = "\<lparr>l_strategy = Collections, l_key = ''items'', l_container = 0, l_promise = 0\<rparr>"
  let ?t = "[(''items'', \<lparr>path = ''items'', has_where = True\<rparr>)]"
  let ?w = "\<lparr>firestore = Some ?t,
       props = [''items'' \<mapsto> Ref 0],
       heap = [ArrayObj []],
       promises = [new_promise],
       listeners = [?l]\<rparr> :: (string, unit, string) world"
  have h: "firestore ?w = Some ?t"
    by simp
  note t = unbind_removes_entry_only[where w = ?w and table = ?t and key = "''items''",
      THEN conjunct1, THEN mp, OF h]
  have 1: "unbind ?w ''items'' = Inr (?w\<lparr>firestore := Some (AList.delete ''items'' ?t)\<rparr>)"
    using t by (rule conjunct1)
  have 2: "unbind (?w\<lparr>firestore := Some (AList.delete ''items'' ?t)\<rparr>) ''items'' =
        Inr (?w\<lparr>firestore := Some (AList.delete ''items'' ?t)\<rparr>)"
    using t by blast
  from 1 2 show ?thesis
    by (simp add: AList.delete_eq)
qed

lemma binding_unbind:
  "unbind (fst (binding (new_vm :: (string, unit, string) world) ''items''
             (Plain \<lparr>path = ''items'', has_where = True\<rparr>))) ''items'' =
     Inr \<lparr>firestore = Some [],
          props = [''items'' \<mapsto> Ref 0],
          heap = [ArrayObj []],
          promises = [new_promise],
          listeners = [\<lparr>l_strategy = Collections, l_key = ''items'', l_container = 0, l_promise = 0\<rparr>]\<rparr>"
  by (simp add: binding_query unbind_def AList.delete_eq)

text \<open>
  Claim C3 as stated fails: after \<^verbatim>\<open>$binding('items', query)\<close> and
  \<^verbatim>\<open>$unbind('items')\<close> the side table is empty, but the listener is still registered
  and its next batch still fills the container; and after the teardown, a further
  \<^verbatim>\<open>$unbind('items')\<close> raises a \<^verbatim>\<open>TypeError\<close>, the side table being \<^verbatim>\<open>null\<close>.
\<close>

theorem unbind_releases_subscription_counterexample:
  "\<exists>w'. unbind (fst (binding (new_vm :: (string, unit, string) world) ''items''
                   (Plain \<lparr>path = ''items'', has_where = True\<rparr>))) ''items'' = Inr w' \<and>
        firestore w' = Some [] \<and>
        listeners w' =
          [\<lparr>l_strategy = Collections, l_key = ''items'', l_container = 0, l_promise = 0\<rparr>] \<and>
        heap_array
          (collections_next (\<lambda>s opts. doc_id (doc s)) () w'
             \<lparr>l_strategy = Collections, l_key = ''items'', l_container = 0, l_promise = 0\<rparr>
             [\<lparr>change_type = ''added'', oldIndex = - 1, newIndex = 0,
               doc = \<lparr>doc_id = ''A'', doc_data = (), doc_exists = True\<rparr>\<rparr>]) 0 = Some [''A''] \<and>
        (\<exists>w''. beforeDestroy w' = Inr w'' \<and> firestore w'' = None \<and>
               listeners w'' = listeners w' \<and> unbind w'' ''items'' = Inl TypeError)"
proof -
  let ?l = "\<lparr>l_strategy = Collections, l_key = ''items'', l_container = 0, l_promise = 0\<rparr>"
  let ?w = "\<lparr>firestore = Some [],
          props = [''items'' \<mapsto> Ref 0],
          heap = [ArrayObj []],
          promises = [new_promise],
          listeners = [?l]\<rparr> :: (string, unit, string) world"
  let ?n = "\<lambda>(s :: unit doc_change) (opts :: unit). doc_id (doc s)"
  let ?evs = "[\<lparr>change_type = ''added'', oldIndex = - 1, newIndex = 0,
               doc = \<lparr>doc_id = ''A'', doc_data = (), doc_exists = True\<rparr>\<rparr>]"
  have 1: "heap_array ?w (l_container ?l) = Some []"
    by (simp add: heap_array_def)
  have "heap_array (collections_next ?n () ?w ?l ?evs) (l_container ?l) =
          Some (collections_forEach ?n () [] ?evs)"
    using 1 by (rule collections_next_container)
  then have 2: "heap_array (collections_next ?n () ?w ?l ?evs) 0 = Some [''A'']"
    by (simp add: collections_forEach_def collections_change_added splice_insert)
  have 3: "beforeDestroy ?w = Inr (?w\<lparr>firestore := None\<rparr>)"
    by (rule beforeDestroy_result)
  have 4: "unbind (?w\<lparr>firestore := None\<rparr>) ''items'' = Inl TypeError"
    by (simp add: unbind_def)
  from 2 3 4 show ?thesis
    by (simp add: binding_unbind)
qed

subsection \<open>A document that does not exist\<close>

lemma binding_document:
  "binding (new_vm :: ('v, 'd, 'e) world) ''profile'' (Plain \<lparr>path = ''users/1'', has_where = False\<rparr>) =
     (\<lparr>firestore = Some [(''profile'', \<lparr>path = ''users/1'', has_where = False\<rparr>)],
       props = [''profile'' \<mapsto> Ref 0],
       heap = [ArrayObj []],
       promises = [new_promise],
       listeners = [\<lparr>l_strategy = Documents, l_key = ''profile'', l_container = 0, l_promise = 0\<rparr>]\<rparr>,
      Direct 0)"
  by (simp add: binding_def ensure_firestore_def new_vm_def bind_def bind_resolve_def bind_reject_def
      bind_objects_def bind_source_def bind_executor_def bind_strategy_def documents_def
      open_binding_def defineReactive_def Let_def)

lemma documents_next_missing:
  "\<not> doc_exists document \<Longrightarrow> firestore w = Some table \<Longrightarrow>
   documents_next normalize_fn opts None w l document =
     (w\<lparr>firestore := Some (AList.delete (l_key l) table)\<rparr>, Some TypeError)"
  by (simp add: documents_next_def)

text \<open>
  On a host whose console does have a method \<^verbatim>\<open>warning\<close>, the promise is rejected with
  whatever that method returns, not with the message.
\<close>

lemma documents_next_missing_warning:
  assumes "\<not> doc_exists document" "firestore w = Some table"
    "promise_state w (l_promise l) = Some Pending"
  shows "promise_state (fst (documents_next normalize_fn opts (Some warning) w l document))
           (l_promise l) =
         Some (Rejected (Error (warning (missing_message (l_key l)))))"
proof -
  let ?w1 = "w\<lparr>firestore := Some (AList.delete (l_key l) table)\<rparr>"
  let ?x = "Error (warning (missing_message (l_key l)))"
  let ?w2 = "reject_promise ?w1 (l_promise l) ?x"
  have "promise_state ?w1 (l_promise l) = promise_state w (l_promise l)"
    by (simp add: promise_state_def)
  with assms(3) have "promise_state ?w1 (l_promise l) = Some Pending"
    by simp
  then have "promise_state ?w2 (l_promise l) = Some (Rejected ?x)"
    by (simp add: promise_state_reject_promise settle_Pending)
  then have "promise_state (resolve_promise ?w2 (l_promise l) (vm_get ?w2 (l_key l))) (l_promise l) =
             Some (Rejected ?x)"
    by (simp add: settled_resolve_promise)
  moreover have "fst (documents_next normalize_fn opts (Some warning) w l document) =
                 resolve_promise ?w2 (l_promise l) (vm_get ?w2 (l_key l))"
    using assms(1,2) by (simp add: documents_next_def Let_def)
  ultimately show ?thesis by simp
qed

text \<open>
  Claim C4 at the input where the code departs from it. The owner has bound
  \<open>profile\<close> to a document reference with \<^verbatim>\<open>$binding\<close>, and the first notification
  reports that the document does not exist. The entry of the side table is removed,
  as the claim says; but \<^verbatim>\<open>console.warning\<close> is not a function, so a \<^verbatim>\<open>TypeError\<close>
  escapes the listener before \<^verbatim>\<open>reject\<close> is called: the promise stays pending and
  \<^verbatim>\<open>reject\<close> has been called zero times.
\<close>

theorem document_missing_leaves_promise_pending:
  "documents_next (\<lambda>d opts. doc_id d) () None
     (fst (binding (new_vm :: (string, unit, string) world) ''profile''
        (Plain \<lparr>path = ''users/1'', has_where = False\<rparr>)))
     \<lparr>l_strategy = Documents, l_key = ''profile'', l_container = 0, l_promise = 0\<rparr>
     \<lparr>doc_id = ''1'', doc_data = (), doc_exists = False\<rparr> =
     (\<lparr>firestore = Some [],
       props = [''profile'' \<mapsto> Ref 0],
       heap = [ArrayObj []],
       promises = [\<lparr>state = Pending, resolve_calls = 0, reject_calls = 0\<rparr>],
       listeners = [\<lparr>l_strategy = Documents, l_key = ''profile'', l_container = 0, l_promise = 0\<rparr>]\<rparr>,
      Some TypeError)"
  by (simp add: binding_document documents_next_def AList.delete_eq new_promise_def)

subsection \<open>The strategy \<^verbatim>\<open>bind\<close> chooses\<close>

lemma bind_executor_Some:
  "firestore w = Some table \<Longrightarrow>
   bind_executor w key source objects p =
     (defineReactive
        (w\<lparr>firestore := Some (AList.update key source table),
            heap := heap w @ [case bind_strategy objects source of
                               CollectionOfObjects \<Rightarrow> PlainObj Map.empty
                             | Collections \<Rightarrow> ArrayObj []
                             | Documents \<Rightarrow> ArrayObj []]\<rparr>)
        key (Ref (length (heap w))))
     \<lparr>listeners := listeners w @
        [\<lparr>l_strategy = bind_strategy objects source, l_key = key,
          l_container = length (heap w), l_promise = p\<rparr>]\<rparr>"
  by (cases "bind_strategy objects source")
     (simp_all add: bind_executor_def collections_def collectionOfObjects_def documents_def
        open_binding_def Let_def defineReactive_def)

lemma listeners_bind:
  "firestore w = Some table \<Longrightarrow>
   listeners (fst (bind w key source params)) =
     listeners w @
       [\<lparr>l_strategy = bind_strategy (bind_objects params source) (bind_source source),
         l_key = key, l_container = length (heap w), l_promise = length (promises w)\<rparr>]"
  by (simp add: bind_def Let_def bind_executor_Some defineReactive_def)

text \<open>
  The choice of lines 166-172, on the flag \<^verbatim>\<open>objects\<close> as it stands at line 165: the
  keyed strategy when the flag is set, whatever the source is; otherwise the sequence
  strategy when the unwrapped source has \<^verbatim>\<open>where\<close>; otherwise the document strategy.
  On an owner with a side table, \<^verbatim>\<open>bind\<close> registers one listener, of that strategy.
\<close>

lemma bind_strategy_by_flag:
  fixes w :: "('v, 'd, 'e) world"
  shows
  "bind_strategy True source' = CollectionOfObjects \<and>
   bind_strategy False source' = (if has_where source' then Collections else Documents) \<and>
   (firestore w = Some table \<longrightarrow>
      listeners (fst (bind w key source params)) =
        listeners w @
          [\<lparr>l_strategy = bind_strategy (bind_objects params source) (bind_source source),
            l_key = key, l_container = length (heap w), l_promise = length (promises w)\<rparr>])"
  by (simp add: listeners_bind bind_strategy_def)

text \<open>For a plain source the flag is \<^verbatim>\<open>params.objects\<close>, and the source is used as it is.\<close>

lemma bind_objects_Plain:
  "bind_objects params (Plain s) = objects_param params \<and> bind_source (Plain s) = s"
  by (simp add: bind_objects_def bind_source_def)

text \<open>
  Claim C5 at the input where the code departs from it. The call
  \<^verbatim>\<open>$bindCollectionAsObject('items', {ref: query})\<close> passes \<^verbatim>\<open>{objects: true}\<close> to
  \<^verbatim>\<open>bind\<close>, so by the claim the keyed strategy is chosen whatever the source is. Line 161
  overwrites the flag with the descriptor's, which is not set: the code chooses the
  sequence strategy and binds an array. The sibling call with the query itself,
  \<^verbatim>\<open>$bindCollectionAsObject('items', query)\<close>, chooses the keyed strategy and binds a
  plain object.
\<close>

theorem bindCollectionAsObject_descriptor_binds_array:
  "bind_strategy
     (bind_objects \<lparr>objects_param = True\<rparr>
        (Descriptor \<lparr>ref = \<lparr>path = ''items'', has_where = True\<rparr>, resolve_cb = None,
                     reject_cb = None, objects_flag = False\<rparr>))
     (bind_source
        (Descriptor \<lparr>ref = \<lparr>path = ''items'', has_where = True\<rparr>, resolve_cb = None,
                     reject_cb = None, objects_flag = False\<rparr>)) = Collections \<and>
   listeners (fst (bindCollectionAsObject (new_vm :: (string, unit, string) world) ''items''
     (Descriptor \<lparr>ref = \<lparr>path = ''items'', has_where = True\<rparr>, resolve_cb = None,
                  reject_cb = None, objects_flag = False\<rparr>))) =
     [\<lparr>l_strategy = Collections, l_key = ''items'', l_container = 0, l_promise = 0\<rparr>] \<and>
   heap (fst (bindCollectionAsObject (new_vm :: (string, unit, string) world) ''items''
     (Descriptor \<lparr>ref = \<lparr>path = ''items'', has_where = True\<rparr>, resolve_cb = None,
                  reject_cb = None, objects_flag = False\<rparr>))) = [ArrayObj []] \<and>
   listeners (fst (bindCollectionAsObject (new_vm :: (string, unit, string) world) ''items''
     (Plain \<lparr>path = ''items'', has_where = True\<rparr>))) =
     [\<lparr>l_strategy = CollectionOfObjects, l_key = ''items'', l_container = 0, l_promise = 0\<rparr>] \<and>
   heap (fst (bindCollectionAsObject (new_vm :: (string, unit, string) world) ''items''
     (Plain \<lparr>path = ''items'', has_where = True\<rparr>))) = [PlainObj Map.empty]"
  by (simp add: bindCollectionAsObject_def ensure_firestore_def new_vm_def bind_def
      bind_resolve_def bind_reject_def bind_objects_def bind_source_def bind_executor_def
      bind_strategy_def collections_def collectionOfObjects_def open_binding_def
      defineReactive_def Let_def)

subsection \<open>The promise \<^verbatim>\<open>bind\<close> returns for a descriptor\<close>

lemma handled_simps:
  "handled (Return r) = Fulfilled r"
  "handled (Throw x) = Rejected x"
  "handled (ReturnPromise s) = s"
  by (simp_all add: handled_def)

lemma handled_Rejected_only_if:
  "handled out = Rejected x \<Longrightarrow> out = Throw x \<or> out = ReturnPromise (Rejected x)"
  by (cases out) (simp_all add: handled_def)

lemma then_catch_Pending: "then_catch Pending f g = Pending"
  by (simp add: then_catch_def)

lemma then_catch_Rejected: "then_catch (Rejected err) f g = handled (g err)"
  by (simp add: then_catch_def)

lemma then_catch_Fulfilled:
  "then_catch (Fulfilled res) f g =
     (case handled (f res) of
        Pending \<Rightarrow> Pending
      | Fulfilled r \<Rightarrow> Fulfilled r
      | Rejected x \<Rightarrow> handled (g x))"
  by (simp add: then_catch_def)

lemma then_catch_Rejected_only_if:
  assumes r: "then_catch s f g = Rejected x"
  shows "\<exists>err. g err = Throw x \<or> g err = ReturnPromise (Rejected x)"
proof (cases s)
  case Pending
  with r show ?thesis by (simp add: then_catch_Pending)
next
  case (Fulfilled res)
  note s = Fulfilled
  show ?thesis
  proof (cases "handled (f res)")
    case Pending
    with r s show ?thesis by (simp add: then_catch_Fulfilled)
  next
    case (Fulfilled r')
    with r s show ?thesis by (simp add: then_catch_Fulfilled)
  next
    case (Rejected e)
    with r s have "handled (g e) = Rejected x"
      by (simp add: then_catch_Fulfilled)
    then show ?thesis by (blast dest: handled_Rejected_only_if)
  qed
next
  case (Rejected err)
  with r have "handled (g err) = Rejected x"
    by (simp add: then_catch_Rejected)
  then show ?thesis by (blast dest: handled_Rejected_only_if)
qed

lemma snd_bind_Descriptor:
  "snd (bind w key (Descriptor d) params) =
     Chained (length (promises w))
       (case resolve_cb d of Some f \<Rightarrow> f | None \<Rightarrow> (\<lambda>res. Return Undefined))
       (case reject_cb d of Some g \<Rightarrow> g | None \<Rightarrow> (\<lambda>err. Return Undefined))"
proof -
  have "call (bind_resolve (Descriptor d)) =
          (case resolve_cb d of Some f \<Rightarrow> f | None \<Rightarrow> (\<lambda>res. Return Undefined))"
    by (simp add: bind_resolve_def call_def fun_eq_iff)
  moreover have "call (bind_reject (Descriptor d)) =
          (case reject_cb d of Some g \<Rightarrow> g | None \<Rightarrow> (\<lambda>err. Return Undefined))"
    by (simp add: bind_reject_def call_def fun_eq_iff)
  moreover have "snd (bind w key (Descriptor d) params) =
          Chained (length (promises w)) (call (bind_resolve (Descriptor d)))
            (call (bind_reject (Descriptor d)))"
    by (simp add: bind_def Let_def bind_resolve_def)
  ultimately show ?thesis by simp
qed

lemma snd_bind_Plain: "snd (bind w key (Plain s) params) = Direct (length (promises w))"
  by (simp add: bind_def Let_def bind_resolve_def bind_reject_def)

text \<open>
  Claim C10, as the code has it. For a descriptor, \<^verbatim>\<open>bind\<close> returns the promise of line
  176, with the descriptor's callbacks, or functions that return \<^verbatim>\<open>undefined\<close> where
  the descriptor has none. When the promise of the binding is rejected, the reason
  goes to the \<^verbatim>\<open>reject\<close> callback and the returned promise takes the outcome of that
  call: fulfilled with the value the callback returns when that value is not a
  promise, the state of the promise the callback returns when it returns one,
  rejected with what the callback throws. When the promise of the binding is
  fulfilled, the \<^verbatim>\<open>resolve\<close> callback is called and a rejection it produces goes to
  the \<^verbatim>\<open>reject\<close> callback in the same way. So the returned promise is rejected only
  when the \<^verbatim>\<open>reject\<close> callback throws or returns a promise that is rejected; with no
  \<^verbatim>\<open>reject\<close> callback in the descriptor it is never rejected. While the promise of the
  binding is pending, so is the returned promise.
\<close>

theorem descriptor_promise_follows_reject_callback:
  fixes w w' :: "('v, 'd, 'e) world"
  shows
  "snd (bind w key (Descriptor d) params) =
     Chained (length (promises w))
       (case resolve_cb d of Some f \<Rightarrow> f | None \<Rightarrow> (\<lambda>res. Return Undefined))
       (case reject_cb d of Some g \<Rightarrow> g | None \<Rightarrow> (\<lambda>err. Return Undefined)) \<and>
   handled (Return y) = Fulfilled y \<and>
   handled (Throw x) = Rejected x \<and>
   handled (ReturnPromise s) = s \<and>
   (promise_state w' p = Some (Rejected err) \<longrightarrow>
      returned_state w' (Chained p f g) = Some (handled (g err))) \<and>
   (promise_state w' p = Some (Fulfilled res) \<longrightarrow>
      returned_state w' (Chained p f g) =
        Some (case handled (f res) of
                Pending \<Rightarrow> Pending
              | Fulfilled r \<Rightarrow> Fulfilled r
              | Rejected x' \<Rightarrow> handled (g x'))) \<and>
   (promise_state w' p = Some Pending \<longrightarrow> returned_state w' (Chained p f g) = Some Pending) \<and>
   (returned_state w' (Chained p f g) = Some (Rejected x) \<longrightarrow>
      (\<exists>err'. g err' = Throw x \<or> g err' = ReturnPromise (Rejected x))) \<and>
   (reject_cb d = None \<longrightarrow>
      returned_state w' (snd (bind w key (Descriptor d) params)) \<noteq> Some (Rejected x))"
proof (intro conjI impI)
  show "snd (bind w key (Descriptor d) params) =
     Chained (length (promises w))
       (case resolve_cb d of Some f \<Rightarrow> f | None \<Rightarrow> (\<lambda>res. Return Undefined))
       (case reject_cb d of Some g \<Rightarrow> g | None \<Rightarrow> (\<lambda>err. Return Undefined))"
    by (rule snd_bind_Descriptor)
next
  show "handled (Return y) = Fulfilled y" "handled (Throw x) = Rejected x"
    "handled (ReturnPromise s) = s"
    by (simp_all add: handled_simps)
next
  assume "promise_state w' p = Some (Rejected err)"
  then show "returned_state w' (Chained p f g) = Some (handled (g err))"
    by (simp add: returned_state_def then_catch_Rejected)
next
  assume "promise_state w' p = Some (Fulfilled res)"
  then show "returned_state w' (Chained p f g) =
        Some (case handled (f res) of
                Pending \<Rightarrow> Pending
              | Fulfilled r \<Rightarrow> Fulfilled r
              | Rejected x' \<Rightarrow> handled (g x'))"
    by (simp add: returned_state_def then_catch_Fulfilled)
next
  assume "promise_state w' p = Some Pending"
  then show "returned_state w' (Chained p f g) = Some Pending"
    by (simp add: returned_state_def then_catch_Pending)
next
  assume "returned_state w' (Chained p f g) = Some (Rejected x)"
  then obtain s' where "then_catch s' f g = Rejected x"
    by (auto simp: returned_state_def split: option.splits)
  then show "\<exists>err'. g err' = Throw x \<or> g err' = ReturnPromise (Rejected x)"
    by (rule then_catch_Rejected_only_if)
next
  assume n: "reject_cb d = None"
  show "returned_state w' (snd (bind w key (Descriptor d) params)) \<noteq> Some (Rejected x)"
  proof
    assume "returned_state w' (snd (bind w key (Descriptor d) params)) = Some (Rejected x)"
    then obtain s' where "then_catch s'
        (case resolve_cb d of Some f \<Rightarrow> f | None \<Rightarrow> (\<lambda>res. Return Undefined))
        (\<lambda>err. Return Undefined) = Rejected x"
      using n by (auto simp: snd_bind_Descriptor returned_state_def split: option.splits)
    from then_catch_Rejected_only_if[OF this] show False
      by simp
  qed
qed

text \<open>
  The theorem at a binding rejected by the remote client: with a \<^verbatim>\<open>reject\<close> callback
  that returns a value, with one that returns a rejected promise, with one that
  throws what it is given, and with none; at a pending binding; and at a fulfilled
  binding whose \<^verbatim>\<open>resolve\<close> callback throws.
\<close>

theorem descriptor_promise_follows_reject_callback_witness:
  "returned_state
     (\<lparr>firestore = Some [(''items'', \<lparr>path = ''items'', has_where = True\<rparr>)],
       props = [''items'' \<mapsto> Ref 0],
       heap = [ArrayObj []],
       promises = [\<lparr>state = Rejected (Error ''denied''), resolve_calls = 0, reject_calls = 1\<rparr>],
       listeners = [\<lparr>l_strategy = Collections, l_key = ''items'', l_container = 0, l_promise = 0\<rparr>]\<rparr>
       :: (string, unit, string) world)
     (Chained 0 (\<lambda>res. Return Undefined) (\<lambda>err. Return (Doc ''handled''))) =
   Some (Fulfilled (Doc ''handled'')) \<and>
   returned_state
     (\<lparr>firestore = Some [(''items'', \<lparr>path = ''items'', has_where = True\<rparr>)],
       props = [''items'' \<mapsto> Ref 0],
       heap = [ArrayObj []],
       promises = [\<lparr>state = Rejected (Error ''denied''), resolve_calls = 0, reject_calls = 1\<rparr>],
       listeners = [\<lparr>l_strategy = Collections, l_key = ''items'', l_container = 0, l_promise = 0\<rparr>]\<rparr>
       :: (string, unit, string) world)
     (Chained 0 (\<lambda>res. Return Undefined) (\<lambda>err. ReturnPromise (Rejected (Error ''again'')))) =
   Some (Rejected (Error ''again'')) \<and>
   (\<exists>err'. (Throw err' :: (string jsval, string thrown) outcome) = Throw (Error ''denied'') \<or>
           (Throw err' :: (string jsval, string thrown) outcome) =
             ReturnPromise (Rejected (Error ''denied''))) \<and>
   returned_state
     (\<lparr>firestore = Some [(''items'', \<lparr>path = ''items'', has_where = True\<rparr>)],
       props = [''items'' \<mapsto> Ref 0],
       heap = [ArrayObj []],
       promises = [\<lparr>state = Rejected (Error ''denied''), resolve_calls = 0, reject_calls = 1\<rparr>],
       listeners = [\<lparr>l_strategy = Collections, l_key = ''items'', l_container = 0, l_promise = 0\<rparr>]\<rparr>
       :: (string, unit, string) world)
     (snd (bind (new_vm\<lparr>firestore := Some []\<rparr> :: (string, unit, string) world) ''items''
        (Descriptor \<lparr>ref = \<lparr>path = ''items'', has_where = True\<rparr>, resolve_cb = None,
                     reject_cb = None, objects_flag = False\<rparr>) \<lparr>objects_param = False\<rparr>)) \<noteq>
   Some (Rejected (Error ''denied'')) \<and>
   returned_state
     (\<lparr>firestore = Some [(''items'', \<lparr>path = ''items'', has_where = True\<rparr>)],
       props = [''items'' \<mapsto> Ref 0],
       heap = [ArrayObj []],
       promises = [\<lparr>state = Pending, resolve_calls = 0, reject_calls = 0\<rparr>],
       listeners = [\<lparr>l_strategy = Collections, l_key = ''items'', l_container = 0, l_promise = 0\<rparr>]\<rparr>
       :: (string, unit, string) world)
     (Chained 0 (\<lambda>res. Return Undefined) (\<lambda>err. Return (Doc ''handled''))) =
   Some Pending \<and>
   returned_state
     (\<lparr>firestore = Some [(''items'', \<lparr>path = ''items'', has_where = True\<rparr>)],
       props = [''items'' \<mapsto> Ref 0],
       heap = [ArrayObj []],
       promises = [\<lparr>state = Fulfilled (Ref 0), resolve_calls = 1, reject_calls = 0\<rparr>],
       listeners = [\<lparr>l_strategy = Collections, l_key = ''items'', l_container = 0, l_promise = 0\<rparr>]\<rparr>
       :: (string, unit, string) world)
     (Chained 0 (\<lambda>res. Throw TypeError) (\<lambda>err. Return (Doc ''handled''))) =
   Some (Fulfilled (Doc ''handled''))"
proof -
  let ?l = "\<lparr>l_strategy = Collections, l_key = ''items'', l_container = 0, l_promise = 0\<rparr>"
  let ?wr = "\<lparr>firestore = Some [(''items'', \<lparr>path = ''items'', has_where = True\<rparr>)],
       props = [''items'' \<mapsto> Ref 0],
       heap = [ArrayObj []],
       promises = [\<lparr>state = Rejected (Error ''denied''), resolve_calls = 0, reject_calls = 1\<rparr>],
       listeners = [?l]\<rparr> :: (string, unit, string) world"
  let ?wp = "\<lparr>firestore = Some [(''items'', \<lparr>path = ''items'', has_where = True\<rparr>)],
       props = [''items'' \<mapsto> Ref 0],
       heap = [ArrayObj []],
       promises = [\<lparr>state = Pending, resolve_calls = 0, reject_calls = 0\<rparr>],
       listeners = [?l]\<rparr> :: (string, unit, string) world"
  let ?wf = "\<lparr>firestore = Some [(''items'', \<lparr>path = ''items'', has_where = True\<rparr>)],
       props = [''items'' \<mapsto> Ref 0],
       heap = [ArrayObj []],
       promises = [\<lparr>state = Fulfilled (Ref 0), resolve_calls = 1, reject_calls = 0\<rparr>],
       listeners = [?l]\<rparr> :: (string, unit, string) world"
  let ?noop = "\<lambda>res :: string jsval. (Return Undefined :: (string jsval, string thrown) outcome)"
  let ?g = "\<lambda>err :: string thrown. (Return (Doc ''handled'') :: (string jsval, string thrown) outcome)"
  let ?gp = "\<lambda>err :: string thrown.
               (ReturnPromise (Rejected (Error ''again'')) :: (string jsval, string thrown) outcome)"
  let ?t = "\<lambda>err :: string thrown. (Throw err :: (string jsval, string thrown) outcome)"
  let ?ft = "\<lambda>res :: string jsval. (Throw TypeError :: (string jsval, string thrown) outcome)"
  have hr: "promise_state ?wr 0 = Some (Rejected (Error ''denied''))"
    by (simp add: promise_state_def)
  have hp: "promise_state ?wp 0 = Some Pending"
    by (simp add: promise_state_def)
  have hf: "promise_state ?wf 0 = Some (Fulfilled (Ref 0))"
    by (simp add: promise_state_def)
  have "returned_state ?wr (Chained 0 ?noop ?g) = Some (handled (?g (Error ''denied'')))"
    using descriptor_promise_follows_reject_callback
      [where w' = ?wr and p = 0 and err = "Error ''denied''" and g = ?g and f = ?noop,
       THEN conjunct2, THEN conjunct2, THEN conjunct2, THEN conjunct2, THEN conjunct1, THEN mp, OF hr] .
  then have 1: "returned_state ?wr (Chained 0 ?noop ?g) = Some (Fulfilled (Doc ''handled''))"
    by (simp add: handled_simps)
  have "returned_state ?wr (Chained 0 ?noop ?gp) = Some (handled (?gp (Error ''denied'')))"
    using descriptor_promise_follows_reject_callback
      [where w' = ?wr and p = 0 and err = "Error ''denied''" and g = ?gp and f = ?noop,
       THEN conjunct2, THEN conjunct2, THEN conjunct2, THEN conjunct2, THEN conjunct1, THEN mp, OF hr] .
  then have 2: "returned_state ?wr (Chained 0 ?noop ?gp) = Some (Rejected (Error ''again''))"
    by (simp add: handled_simps)
  have h3: "returned_state ?wr (Chained 0 ?noop ?t) = Some (Rejected (Error ''denied''))"
    by (simp add: returned_state_def promise_state_def then_catch_Rejected handled_simps)
  have 3: "\<exists>err'. ?t err' = Throw (Error ''denied'') \<or>
                 ?t err' = ReturnPromise (Rejected (Error ''denied''))"
    using descriptor_promise_follows_reject_callback
      [where w' = ?wr and p = 0 and g = ?t and x = "Error ''denied''" and f = ?noop,
       THEN conjunct2, THEN conjunct2, THEN conjunct2, THEN conjunct2, THEN conjunct2, THEN conjunct2, THEN conjunct2, THEN conjunct1,
       THEN mp, OF h3] .
  let ?d = "\<lparr>ref = \<lparr>path = ''items'', has_where = True\<rparr>, resolve_cb = None,
             reject_cb = None, objects_flag = False\<rparr> :: (string, string) ref_descriptor"
  have h4: "reject_cb ?d = None"
    by simp
  have 4: "returned_state ?wr
             (snd (bind (new_vm\<lparr>firestore := Some []\<rparr> :: (string, unit, string) world) ''items''
                (Descriptor ?d) \<lparr>objects_param = False\<rparr>)) \<noteq>
           Some (Rejected (Error ''denied''))"
    using descriptor_promise_follows_reject_callback
      [where w' = ?wr and d = ?d and x = "Error ''denied''"
         and w = "new_vm\<lparr>firestore := Some []\<rparr>" and key = "''items''"
         and params = "\<lparr>objects_param = False\<rparr>",
       THEN conjunct2, THEN conjunct2, THEN conjunct2, THEN conjunct2, THEN conjunct2, THEN conjunct2, THEN conjunct2, THEN conjunct2,
       THEN mp, OF h4] .
  have 5: "returned_state ?wp (Chained 0 ?noop ?g) = Some Pending"
    using descriptor_promise_follows_reject_callback
      [where w' = ?wp and p = 0 and g = ?g and f = ?noop,
       THEN conjunct2, THEN conjunct2, THEN conjunct2, THEN conjunct2, THEN conjunct2, THEN conjunct2, THEN conjunct1, THEN mp, OF hp] .
  have "returned_state ?wf (Chained 0 ?ft ?g) =
        Some (case handled (?ft (Ref 0)) of
                Pending \<Rightarrow> Pending
              | Fulfilled r \<Rightarrow> Fulfilled r
              | Rejected x' \<Rightarrow> handled (?g x'))"
    using descriptor_promise_follows_reject_callback
      [where w' = ?wf and p = 0 and res = "Ref 0" and g = ?g and f = ?ft,
       THEN conjunct2, THEN conjunct2, THEN conjunct2, THEN conjunct2, THEN conjunct2, THEN conjunct1, THEN mp, OF hf] .
  then have 6: "returned_state ?wf (Chained 0 ?ft ?g) = Some (Fulfilled (Doc ''handled''))"
    by (simp add: handled_simps)
  from 1 2 3 4 5 6 show ?thesis by (intro conjI)
qed

text \<open>
  Claim C10 as stated fails: with a \<^verbatim>\<open>reject\<close> callback that throws what it is given,
  an error of the remote client leaves the promise \<^verbatim>\<open>$binding\<close> returned rejected.
\<close>

theorem descriptor_promise_counterexample:
  "returned_state
     (collections_error
        (fst (binding (new_vm :: (string, unit, string) world) ''items''
           (Descriptor \<lparr>ref = \<lparr>path = ''items'', has_where = True\<rparr>, resolve_cb = None,
                        reject_cb = Some (\<lambda>err. Throw err), objects_flag = False\<rparr>)))
        \<lparr>l_strategy = Collections, l_key = ''items'', l_container = 0, l_promise = 0\<rparr>
        ''denied'')
     (snd (binding (new_vm :: (string, unit, string) world) ''items''
        (Descriptor \<lparr>ref = \<lparr>path = ''items'', has_where = True\<rparr>, resolve_cb = None,
                     reject_cb = Some (\<lambda>err. Throw err), objects_flag = False\<rparr>))) =
   Some (Rejected (Error ''denied'')) \<and>
   listeners
     (fst (binding (new_vm :: (string, unit, string) world) ''items''
        (Descriptor \<lparr>ref = \<lparr>path = ''items'', has_where = True\<rparr>, resolve_cb = None,
                     reject_cb = Some (\<lambda>err. Throw err), objects_flag = False\<rparr>))) =
     [\<lparr>l_strategy = Collections, l_key = ''items'', l_container = 0, l_promise = 0\<rparr>]"
proof -
  let ?d = "\<lparr>ref = \<lparr>path = ''items'', has_where = True\<rparr>, resolve_cb = None,
             reject_cb = Some (\<lambda>err. Throw err), objects_flag = False\<rparr>
             :: (string, string) ref_descriptor"
  let ?l = "\<lparr>l_strategy = Collections, l_key = ''items'', l_container = 0, l_promise = 0\<rparr>"
  have w: "fst (binding (new_vm :: (string, unit, string) world) ''items'' (Descriptor ?d)) =
      \<lparr>firestore = Some [(''items'', \<lparr>path = ''items'', has_where = True\<rparr>)],
       props = [''items'' \<mapsto> Ref 0],
       heap = [ArrayObj []],
       promises = [new_promise],
       listeners = [?l]\<rparr>"
    by (simp add: binding_def ensure_firestore_def new_vm_def bind_def bind_resolve_def
        bind_reject_def bind_objects_def bind_source_def bind_executor_def bind_strategy_def
        collections_def open_binding_def defineReactive_def Let_def)
  have r: "snd (binding (new_vm :: (string, unit, string) world) ''items'' (Descriptor ?d)) =
      Chained 0 (\<lambda>res. Return Undefined) (\<lambda>err. Throw err)"
    by (simp add: binding_def snd_bind_Descriptor ensure_firestore_def new_vm_def)
  let ?w = "\<lparr>firestore = Some [(''items'', \<lparr>path = ''items'', has_where = True\<rparr>)],
       props = [''items'' \<mapsto> Ref 0],
       heap = [ArrayObj []],
       promises = [new_promise],
       listeners = [?l]\<rparr> :: (string, unit, string) world"
  have "promise_state ?w (l_promise ?l) = Some Pending"
    by (simp add: promise_state_def new_promise_def)
  then have "promise_state (collections_error ?w ?l ''denied'') 0 = Some (Rejected (Error ''denied''))"
    by (simp add: collections_error_def promise_state_reject_promise settle_Pending)
  then have "returned_state (collections_error ?w ?l ''denied'')
               (Chained 0 (\<lambda>res. Return Undefined) (\<lambda>err. Throw err)) =
             Some (Rejected (Error ''denied''))"
    by (simp add: returned_state_def then_catch_Rejected handled_simps)
  then show ?thesis
    unfolding w r by simp
qed

end
